theory Spec2Isabelle
  imports Main "HOL-Library.Word"
begin

unbundle bit_operations_syntax

section \<open>Constants of the program header\<close>

text \<open>
  The values are those of the header: the register file has \<open>32*4\<close> entries, the
  general-purpose pool starts at 32, and the variable enumeration runs
  \<open>D1..D4, S1..S8, C1..C8, P1..P8, T1..T8\<close>, which puts \<open>ORC_VAR_T1\<close> at 28.
\<close>

definition ORC_N_REGS :: nat where
  "ORC_N_REGS = 32 * 4"

definition ORC_N_VARIABLES :: nat where
  "ORC_N_VARIABLES = 20"

definition ORC_GP_REG_BASE :: nat where
  "ORC_GP_REG_BASE = 32"

definition ORC_VEC_REG_BASE :: nat where
  "ORC_VEC_REG_BASE = 64"

definition ORC_STATIC_OPCODE_N_SRC :: nat where
  "ORC_STATIC_OPCODE_N_SRC = 4"

definition ORC_STATIC_OPCODE_N_DEST :: nat where
  "ORC_STATIC_OPCODE_N_DEST = 2"

definition ORC_VAR_D1 :: nat where "ORC_VAR_D1 = 0"
definition ORC_VAR_S1 :: nat where "ORC_VAR_S1 = 4"
definition ORC_VAR_S2 :: nat where "ORC_VAR_S2 = 5"
definition ORC_VAR_C1 :: nat where "ORC_VAR_C1 = 12"
definition ORC_VAR_P1 :: nat where "ORC_VAR_P1 = 20"
definition ORC_VAR_T1 :: nat where "ORC_VAR_T1 = 28"

section \<open>Data model\<close>

text \<open>
  \<open>OrcVarType\<close>: the header lists the first five kinds; the compiler also uses
  \<open>ORC_VAR_TYPE_ACCUMULATOR\<close>. The field is an integer-backed enum, so the
  \<open>default\<close> branch of the global allocator's \<open>switch\<close> can be reached;
  \<open>ORC_VAR_TYPE_INVALID\<close> stands for every value outside the enumeration.
\<close>

datatype OrcVarType =
    ORC_VAR_TYPE_TEMP
  | ORC_VAR_TYPE_SRC
  | ORC_VAR_TYPE_DEST
  | ORC_VAR_TYPE_CONST
  | ORC_VAR_TYPE_PARAM
  | ORC_VAR_TYPE_ACCUMULATOR
  | ORC_VAR_TYPE_INVALID

text \<open>
  Modelled from the spec: the \<open>OrcCompileResult\<close> enumeration is not declared in the
  sources at hand. The compiler uses the three values below; the driver's test
  \<open>result == 0\<close> together with the zero-filled context makes \<open>OK\<close> the zero value.
\<close>

datatype OrcCompileResult =
    ORC_COMPILE_RESULT_OK
  | ORC_COMPILE_RESULT_UNKNOWN_COMPILE
  | ORC_COMPILE_RESULT_UNKNOWN_PARSE

text \<open>
  Modelled from the spec: the bit masks of the opcode flags are not defined in the
  sources at hand. The compiler only tests \<open>flags & ORC_STATIC_OPCODE_ACCUMULATOR\<close>
  and \<open>flags & ORC_STATIC_OPCODE_SCALAR\<close>; a flag word is the set of flags it holds
  and the test is membership.
\<close>

datatype OrcOpcodeFlag =
    ORC_STATIC_OPCODE_ACCUMULATOR
  | ORC_STATIC_OPCODE_SCALAR

text \<open>
  A variable. \<open>name\<close> is a C string pointer (\<open>None\<close> is \<open>NULL\<close>); the truth-valued
  \<open>int\<close> fields are booleans; variable and register numbers are naturals;
  \<open>first_use\<close> and \<open>last_use\<close> are integers because the global allocator stores -1.
\<close>

record OrcVariable =
  name :: "string option"
  vsize :: int
  vartype :: OrcVarType
  used :: bool
  first_use :: int
  last_use :: int
  replaced :: bool
  replacement :: nat
  alloc :: nat
  load_dest :: bool
  ptr_register :: nat
  ptr_offset :: nat
  mask_alloc :: nat
  aligned_data :: nat

record OrcStaticOpcode =
  opname :: string
  dest_size :: "nat \<Rightarrow> int"
  src_size :: "nat \<Rightarrow> int"
  flags :: "OrcOpcodeFlag set"

record OrcInstruction =
  opcode :: OrcStaticOpcode
  dest_args :: "nat \<Rightarrow> nat"
  src_args :: "nat \<Rightarrow> nat"

record OrcConstant =
  cvalue :: "32 word"
  alloc_reg :: nat
  use_count :: int

text \<open>
  The compiler context. Arrays are stores indexed by naturals; the instruction array
  with its count \<open>n_insns\<close> is a list. \<open>data_register_offset\<close> is the field of the
  target the context points to. \<open>messages\<close> collects the diagnostics and
  \<open>loaded_constants\<close> the calls of the target's \<open>load_constant\<close> hook
  (register, size, value).
\<close>

record OrcCompiler =
  insns :: "OrcInstruction list"
  vars :: "nat \<Rightarrow> OrcVariable"
  n_temp_vars :: nat
  n_dup_vars :: nat
  error :: bool
  result :: OrcCompileResult
  messages :: "string list"
  valid_regs :: "nat \<Rightarrow> int"
  save_regs :: "nat \<Rightarrow> int"
  used_regs :: "nat \<Rightarrow> int"
  alloc_regs :: "nat \<Rightarrow> int"
  data_register_offset :: nat
  need_mask_regs :: bool
  alloc_loop_counter :: bool
  loop_counter :: nat
  constants :: "nat \<Rightarrow> OrcConstant"
  n_constants :: nat
  tmpreg :: nat
  loaded_constants :: "(nat \<times> int \<times> 32 word) list"

definition n_insns :: "OrcCompiler \<Rightarrow> nat" where
  "n_insns c = length (insns c)"

text \<open>
  Modelled from the spec: the macro \<open>ORC_COMPILER_ERROR\<close> is not in the sources at
  hand. It sets the context's \<open>error\<close> flag and writes the formatted diagnostic
  through the debug subsystem.
\<close>

definition ORC_COMPILER_ERROR :: "OrcCompiler \<Rightarrow> string \<Rightarrow> OrcCompiler" where
  "ORC_COMPILER_ERROR c msg = c\<lparr>error := True, messages := messages c @ [msg]\<rparr>"

text \<open>
  The \<open>%d\<close> conversion of \<open>printf\<close>: decimal digits, most significant first, are
  collected in front of an accumulator; a negative number gets a minus sign.
\<close>

definition decimal_digit :: "nat \<Rightarrow> char" where
  "decimal_digit d = char_of (of_char (CHR ''0'') + d)"

fun decimal_digits :: "nat \<Rightarrow> string \<Rightarrow> string" where
  "decimal_digits n acc =
     (if n div 10 = 0 then decimal_digit n # acc
      else decimal_digits (n div 10) (decimal_digit (n mod 10) # acc))"

definition format_nat :: "nat \<Rightarrow> string" where
  "format_nat n = decimal_digits n []"

definition format_int :: "int \<Rightarrow> string" where
  "format_int i = (if 0 \<le> i then format_nat (nat i) else CHR ''-'' # format_nat (nat (- i)))"

text \<open>In-place updates of one variable and of one operand slot of instruction \<open>j\<close>.\<close>

definition var_update ::
  "nat \<Rightarrow> (OrcVariable \<Rightarrow> OrcVariable) \<Rightarrow> OrcCompiler \<Rightarrow> OrcCompiler" where
  "var_update v f c = c\<lparr>vars := (vars c)(v := f (vars c v))\<rparr>"

definition set_src_arg :: "nat \<Rightarrow> nat \<Rightarrow> nat \<Rightarrow> OrcCompiler \<Rightarrow> OrcCompiler" where
  "set_src_arg j k a c =
     c\<lparr>insns := (insns c)[j := (insns c ! j)\<lparr>src_args := (src_args (insns c ! j))(k := a)\<rparr>]\<rparr>"

definition set_dest_arg :: "nat \<Rightarrow> nat \<Rightarrow> nat \<Rightarrow> OrcCompiler \<Rightarrow> OrcCompiler" where
  "set_dest_arg j k a c =
     c\<lparr>insns := (insns c)[j := (insns c ! j)\<lparr>dest_args := (dest_args (insns c ! j))(k := a)\<rparr>]\<rparr>"

text \<open>A diagnostic followed by \<open>compiler->result = ORC_COMPILE_RESULT_UNKNOWN_PARSE\<close>.\<close>

definition parse_error :: "string \<Rightarrow> OrcCompiler \<Rightarrow> OrcCompiler" where
  "parse_error msg c = (ORC_COMPILER_ERROR c msg)\<lparr>result := ORC_COMPILE_RESULT_UNKNOWN_PARSE\<rparr>"

section \<open>Register allocation\<close>

text \<open>
  \<open>orc_compiler_allocate_register\<close>: two scans of the 32-register window starting
  at the pool's offset, with \<open>roff = 0\<close>. Each scan is the source's \<open>for\<close> loop
  from index \<open>i\<close> on; \<open>Some\<close> is the \<open>return reg\<close> inside the loop, \<open>None\<close> is
  falling out of the loop.
\<close>

definition take_register :: "OrcCompiler \<Rightarrow> nat \<Rightarrow> OrcCompiler" where
  "take_register c reg =
     c\<lparr>alloc_regs := (alloc_regs c)(reg := alloc_regs c reg + 1),
       used_regs := (used_regs c)(reg := 1)\<rparr>"

function allocate_scan_nosave ::
  "OrcCompiler \<Rightarrow> nat \<Rightarrow> nat \<Rightarrow> nat \<Rightarrow> (nat \<times> OrcCompiler) option" where
  "allocate_scan_nosave c offset roff i =
     (if i < 32 then
        (let reg = offset + ((roff + i) AND 0x1f) in
         if valid_regs c reg \<noteq> 0 \<and> \<not> (save_regs c reg \<noteq> 0) \<and> alloc_regs c reg = 0
         then Some (reg, take_register c reg)
         else allocate_scan_nosave c offset roff (i + 1))
      else None)"
  by pat_completeness auto
termination
  by (relation "measure (\<lambda>(c, offset, roff, i). 32 - i)") auto

function allocate_scan_any ::
  "OrcCompiler \<Rightarrow> nat \<Rightarrow> nat \<Rightarrow> nat \<Rightarrow> (nat \<times> OrcCompiler) option" where
  "allocate_scan_any c offset roff i =
     (if i < 32 then
        (let reg = offset + ((roff + i) AND 0x1f) in
         if valid_regs c reg \<noteq> 0 \<and> alloc_regs c reg = 0
         then Some (reg, take_register c reg)
         else allocate_scan_any c offset roff (i + 1))
      else None)"
  by pat_completeness auto
termination
  by (relation "measure (\<lambda>(c, offset, roff, i). 32 - i)") auto

definition orc_compiler_allocate_register ::
  "OrcCompiler \<Rightarrow> bool \<Rightarrow> nat \<times> OrcCompiler" where
  "orc_compiler_allocate_register c data_reg =
     (let offset = (if data_reg then data_register_offset c else ORC_GP_REG_BASE);
          roff = 0
      in case allocate_scan_nosave c offset roff 0 of
           Some r \<Rightarrow> r
         | None \<Rightarrow>
            (case allocate_scan_any c offset roff 0 of
               Some r \<Rightarrow> r
             | None \<Rightarrow>
                (0, (ORC_COMPILER_ERROR c
                       (''register overflow for '' @
                        (if data_reg then ''vector'' else ''gp'') @ '' reg''))
                    \<lparr>result := ORC_COMPILE_RESULT_UNKNOWN_COMPILE\<rparr>)))"

text \<open>The two tests of the allocation policy, as the specification words them.\<close>

definition reg_preferred :: "OrcCompiler \<Rightarrow> nat \<Rightarrow> bool" where
  "reg_preferred c r \<longleftrightarrow> valid_regs c r \<noteq> 0 \<and> save_regs c r = 0 \<and> alloc_regs c r = 0"

definition reg_free :: "OrcCompiler \<Rightarrow> nat \<Rightarrow> bool" where
  "reg_free c r \<longleftrightarrow> valid_regs c r \<noteq> 0 \<and> alloc_regs c r = 0"

definition pool_offset :: "OrcCompiler \<Rightarrow> bool \<Rightarrow> nat" where
  "pool_offset c data_reg = (if data_reg then data_register_offset c else ORC_GP_REG_BASE)"

definition pool_name :: "bool \<Rightarrow> string" where
  "pool_name data_reg = (if data_reg then ''vector'' else ''gp'')"

definition register_overflow :: "OrcCompiler \<Rightarrow> bool \<Rightarrow> OrcCompiler" where
  "register_overflow c data_reg =
     c\<lparr>error := True,
       messages := messages c @ [''register overflow for '' @ pool_name data_reg @ '' reg''],
       result := ORC_COMPILE_RESULT_UNKNOWN_COMPILE\<rparr>"

section \<open>The validator\<close>

text \<open>
  \<open>orc_compiler_check_sizes\<close>. Each loop runs over its index list; \<open>Some\<close> is the
  \<open>return\<close> after a diagnostic, \<open>None\<close> is the loop running to its end.
\<close>

fun check_sizes_dest :: "OrcCompiler \<Rightarrow> OrcInstruction \<Rightarrow> nat list \<Rightarrow> OrcCompiler option" where
  "check_sizes_dest c insn [] = None"
| "check_sizes_dest c insn (j # js) =
     (if dest_size (opcode insn) j = 0 then check_sizes_dest c insn js
      else if dest_size (opcode insn) j \<noteq> vsize (vars c (dest_args insn j)) then
        Some (parse_error
               (''size mismatch, opcode '' @ opname (opcode insn) @ '' dest['' @
                format_nat j @ ''] is '' @ format_int (vsize (vars c (dest_args insn j))) @
                '' should be '' @ format_int (dest_size (opcode insn) j)) c)
      else check_sizes_dest c insn js)"

fun check_sizes_src :: "OrcCompiler \<Rightarrow> OrcInstruction \<Rightarrow> nat list \<Rightarrow> OrcCompiler option" where
  "check_sizes_src c insn [] = None"
| "check_sizes_src c insn (j # js) =
     (if src_size (opcode insn) j = 0 then check_sizes_src c insn js
      else if src_size (opcode insn) j \<noteq> vsize (vars c (src_args insn j)) \<and>
              vartype (vars c (src_args insn j)) \<noteq> ORC_VAR_TYPE_PARAM \<and>
              vartype (vars c (src_args insn j)) \<noteq> ORC_VAR_TYPE_CONST then
        Some (parse_error
               (''size mismatch, opcode '' @ opname (opcode insn) @ '' src['' @
                format_nat j @ ''] is '' @ format_int (vsize (vars c (src_args insn j))) @
                '' should be '' @ format_int (src_size (opcode insn) j)) c)
      else if ORC_STATIC_OPCODE_SCALAR \<in> flags (opcode insn) \<and> j \<ge> 1 \<and>
              vartype (vars c (src_args insn j)) \<noteq> ORC_VAR_TYPE_PARAM \<and>
              vartype (vars c (src_args insn j)) \<noteq> ORC_VAR_TYPE_CONST then
        Some (parse_error
               (''opcode '' @ opname (opcode insn) @ '' requires const or param source'') c)
      else check_sizes_src c insn js)"

fun check_sizes_insns :: "OrcCompiler \<Rightarrow> nat list \<Rightarrow> OrcCompiler option" where
  "check_sizes_insns c [] = None"
| "check_sizes_insns c (i # is) =
     (case check_sizes_dest c (insns c ! i) [0..<ORC_STATIC_OPCODE_N_DEST] of
        Some c' \<Rightarrow> Some c'
      | None \<Rightarrow>
         (case check_sizes_src c (insns c ! i) [0..<ORC_STATIC_OPCODE_N_SRC] of
            Some c' \<Rightarrow> Some c'
          | None \<Rightarrow> check_sizes_insns c is))"

definition orc_compiler_check_sizes :: "OrcCompiler \<Rightarrow> OrcCompiler" where
  "orc_compiler_check_sizes c =
     (case check_sizes_insns c [0..<n_insns c] of Some c' \<Rightarrow> c' | None \<Rightarrow> c)"

section \<open>Liveness and renaming of temporaries\<close>

text \<open>
  C strings: \<open>sprintf\<close> with a \<open>NULL\<close> or uninitialised \<open>%s\<close> argument is undefined
  in C; the model reads the empty string there, and the statements about duplicate
  names assume a named donor distinct from the new slot.
\<close>

definition cstring :: "string option \<Rightarrow> string" where
  "cstring p = (case p of None \<Rightarrow> [] | Some s \<Rightarrow> s)"

text \<open>
  \<open>orc_compiler_dup_temporary\<close>: the new slot is written field by field, in the
  source's order; the name buffer is allocated first and filled by \<open>sprintf\<close> from the
  donor's name afterwards.
\<close>

definition orc_compiler_dup_temporary ::
  "OrcCompiler \<Rightarrow> nat \<Rightarrow> nat \<Rightarrow> nat \<times> OrcCompiler" where
  "orc_compiler_dup_temporary c var j =
     (let i = ORC_VAR_T1 + n_temp_vars c + n_dup_vars c;
          c1 = var_update i (\<lambda>v. v\<lparr>vartype := ORC_VAR_TYPE_TEMP\<rparr>) c;
          c2 = var_update i (\<lambda>v. v\<lparr>vsize := vsize (vars c1 var)\<rparr>) c1;
          c3 = var_update i (\<lambda>v. v\<lparr>name := Some []\<rparr>) c2;
          c4 = var_update i
                 (\<lambda>v. v\<lparr>name := Some (cstring (name (vars c3 var)) @ ''.dup'' @ format_nat j)\<rparr>) c3;
          c5 = c4\<lparr>n_dup_vars := n_dup_vars c4 + 1\<rparr>
      in (i, c5))"

text \<open>The body of the source-slot loop of \<open>orc_compiler_rewrite_vars\<close>, slot \<open>k\<close> of instruction \<open>j\<close>.\<close>

definition rewrite_vars_src :: "nat \<Rightarrow> OrcCompiler \<Rightarrow> nat \<Rightarrow> OrcCompiler" where
  "rewrite_vars_src j c k =
     (if src_size (opcode (insns c ! j)) k = 0 then c
      else
        let var = src_args (insns c ! j) k;
            c1 = (if vartype (vars c var) = ORC_VAR_TYPE_DEST
                  then var_update var (\<lambda>v. v\<lparr>load_dest := True\<rparr>) c else c);
            actual_var = (if replaced (vars c1 var) then replacement (vars c1 var) else var);
            c2 = (if replaced (vars c1 var) then set_src_arg j k actual_var c1 else c1);
            c3 = (if \<not> used (vars c2 var) then
                    var_update var (\<lambda>v. v\<lparr>used := True, first_use := int j\<rparr>)
                      (if vartype (vars c2 var) = ORC_VAR_TYPE_TEMP
                       then parse_error ''using uninitialized temp var'' c2 else c2)
                  else c2)
        in var_update actual_var (\<lambda>v. v\<lparr>last_use := int j\<rparr>) c3)"

text \<open>The kind checks on a destination; every failed check latches a diagnostic and the pass goes on.\<close>

definition rewrite_vars_dest_checks :: "OrcStaticOpcode \<Rightarrow> nat \<Rightarrow> OrcCompiler \<Rightarrow> OrcCompiler" where
  "rewrite_vars_dest_checks opc var c =
     (let c1 = (if vartype (vars c var) = ORC_VAR_TYPE_SRC
                then parse_error ''using src var as dest'' c else c);
          c2 = (if vartype (vars c1 var) = ORC_VAR_TYPE_CONST
                then parse_error ''using const var as dest'' c1 else c1);
          c3 = (if vartype (vars c2 var) = ORC_VAR_TYPE_PARAM
                then parse_error ''using param var as dest'' c2 else c2)
      in if ORC_STATIC_OPCODE_ACCUMULATOR \<in> flags opc then
           (if vartype (vars c3 var) \<noteq> ORC_VAR_TYPE_ACCUMULATOR
            then parse_error ''accumulating opcode to non-accumulator dest'' c3 else c3)
         else
           (if vartype (vars c3 var) = ORC_VAR_TYPE_ACCUMULATOR
            then parse_error ''non-accumulating opcode to accumulator dest'' c3 else c3))"

text \<open>The body of the destination-slot loop, slot \<open>k\<close> of instruction \<open>j\<close>.\<close>

definition rewrite_vars_dest :: "nat \<Rightarrow> OrcCompiler \<Rightarrow> nat \<Rightarrow> OrcCompiler" where
  "rewrite_vars_dest j c k =
     (if dest_size (opcode (insns c ! j)) k = 0 then c
      else
        let var = dest_args (insns c ! j) k;
            c1 = rewrite_vars_dest_checks (opcode (insns c ! j)) var c;
            actual_var = (if replaced (vars c1 var) then replacement (vars c1 var) else var);
            c2 = (if replaced (vars c1 var) then set_dest_arg j k actual_var c1 else c1)
        in
          if \<not> used (vars c2 var) then
            var_update actual_var (\<lambda>v. v\<lparr>last_use := int j\<rparr>)
              (var_update actual_var (\<lambda>v. v\<lparr>used := True, first_use := int j\<rparr>) c2)
          else if vartype (vars c2 var) = ORC_VAR_TYPE_TEMP then
            (let (dup, c3) = orc_compiler_dup_temporary c2 var j;
                 c4 = var_update var (\<lambda>v. v\<lparr>replaced := True, replacement := dup\<rparr>) c3;
                 c5 = set_dest_arg j k dup c4;
                 c6 = var_update dup (\<lambda>v. v\<lparr>used := True, first_use := int j\<rparr>) c5
             in var_update dup (\<lambda>v. v\<lparr>last_use := int j\<rparr>) c6)
          else var_update actual_var (\<lambda>v. v\<lparr>last_use := int j\<rparr>) c2)"

definition rewrite_vars_insn :: "OrcCompiler \<Rightarrow> nat \<Rightarrow> OrcCompiler" where
  "rewrite_vars_insn c j =
     foldl (rewrite_vars_dest j)
       (foldl (rewrite_vars_src j) c [0..<ORC_STATIC_OPCODE_N_SRC])
       [0..<ORC_STATIC_OPCODE_N_DEST]"

definition orc_compiler_rewrite_vars :: "OrcCompiler \<Rightarrow> OrcCompiler" where
  "orc_compiler_rewrite_vars c = foldl rewrite_vars_insn c [0..<n_insns c]"

section \<open>Global register allocation\<close>

text \<open>A call \<open>field = orc_compiler_allocate_register (compiler, data_reg)\<close> on variable \<open>i\<close>.\<close>

definition allocate_for ::
  "nat \<Rightarrow> bool \<Rightarrow> (nat \<Rightarrow> OrcVariable \<Rightarrow> OrcVariable) \<Rightarrow> OrcCompiler \<Rightarrow> OrcCompiler" where
  "allocate_for i data_reg store c =
     (let (r, c') = orc_compiler_allocate_register c data_reg in var_update i (store r) c')"

definition global_reg_alloc_var :: "OrcCompiler \<Rightarrow> nat \<Rightarrow> OrcCompiler" where
  "global_reg_alloc_var c i =
     (case vartype (vars c i) of
        ORC_VAR_TYPE_CONST \<Rightarrow>
          allocate_for i True (\<lambda>r v. v\<lparr>alloc := r\<rparr>)
            (var_update i (\<lambda>v. v\<lparr>first_use := -1, last_use := -1\<rparr>) c)
      | ORC_VAR_TYPE_PARAM \<Rightarrow>
          allocate_for i True (\<lambda>r v. v\<lparr>alloc := r\<rparr>)
            (var_update i (\<lambda>v. v\<lparr>first_use := -1, last_use := -1\<rparr>) c)
      | ORC_VAR_TYPE_SRC \<Rightarrow>
          (let c1 = allocate_for i False (\<lambda>r v. v\<lparr>ptr_register := r\<rparr>) c in
           if need_mask_regs c1 then
             allocate_for i True (\<lambda>r v. v\<lparr>aligned_data := r\<rparr>)
               (allocate_for i False (\<lambda>r v. v\<lparr>ptr_offset := r\<rparr>)
                 (allocate_for i True (\<lambda>r v. v\<lparr>mask_alloc := r\<rparr>) c1))
           else c1)
      | ORC_VAR_TYPE_DEST \<Rightarrow> allocate_for i False (\<lambda>r v. v\<lparr>ptr_register := r\<rparr>) c
      | ORC_VAR_TYPE_ACCUMULATOR \<Rightarrow>
          allocate_for i True (\<lambda>r v. v\<lparr>alloc := r\<rparr>)
            (var_update i (\<lambda>v. v\<lparr>first_use := -1, last_use := -1\<rparr>) c)
      | ORC_VAR_TYPE_TEMP \<Rightarrow> c
      | ORC_VAR_TYPE_INVALID \<Rightarrow> parse_error ''bad vartype'' c)"

text \<open>The loop over the variable table: unnamed slots are skipped, a latched error ends the loop.\<close>

fun global_reg_alloc_vars :: "OrcCompiler \<Rightarrow> nat list \<Rightarrow> OrcCompiler" where
  "global_reg_alloc_vars c [] = c"
| "global_reg_alloc_vars c (i # is) =
     (if name (vars c i) = None then global_reg_alloc_vars c is
      else
        let c' = global_reg_alloc_var c i
        in if error c' then c' else global_reg_alloc_vars c' is)"

definition global_reg_alloc_loop_counter :: "OrcCompiler \<Rightarrow> OrcCompiler" where
  "global_reg_alloc_loop_counter c =
     (if alloc_loop_counter c \<and> \<not> error c then
        (let (r, c1) = orc_compiler_allocate_register c False;
             c2 = c1\<lparr>loop_counter := r\<rparr>
         in if loop_counter c2 = 0
            then c2\<lparr>error := False, result := ORC_COMPILE_RESULT_OK\<rparr>
            else c2)
      else c)"

definition orc_compiler_global_reg_alloc :: "OrcCompiler \<Rightarrow> OrcCompiler" where
  "orc_compiler_global_reg_alloc c =
     global_reg_alloc_loop_counter (global_reg_alloc_vars c [0..<ORC_N_VARIABLES])"

section \<open>Local register allocation\<close>




definition rewrite_vars2_death :: "nat \<Rightarrow> OrcCompiler \<Rightarrow> nat \<Rightarrow> OrcCompiler" where
  "rewrite_vars2_death j c i =
     (if name (vars c i) = None then c
      else if last_use (vars c i) = int j then
        c\<lparr>alloc_regs := (alloc_regs c)
             (alloc (vars c i) := alloc_regs c (alloc (vars c i)) - 1)\<rparr>
      else c)"



section \<open>The constant pool\<close>

text \<open>
  The canonical form of a constant: \<open>value\<close> is a 32-bit \<open>int\<close>, modelled as a word so
  that the shifts drop the bits that leave the register.
\<close>

definition canonical_constant :: "int \<Rightarrow> 32 word \<Rightarrow> 32 word" where
  "canonical_constant sz v =
     (if sz < 4 then
        (let v1 = (if sz < 2 then (let b = v AND 0xff in b OR push_bit 8 b) else v);
             v2 = v1 AND 0xffff
         in v2 OR push_bit 16 v2)
      else v)"

text \<open>The search loop: the index of the first entry holding \<open>value\<close>, or \<open>n_constants\<close>.\<close>

function constant_search :: "OrcCompiler \<Rightarrow> 32 word \<Rightarrow> nat \<Rightarrow> nat" where
  "constant_search c v i =
     (if i < n_constants c then
        (if cvalue (constants c i) = v then i else constant_search c v (i + 1))
      else i)"
  by pat_completeness auto
termination
  by (relation "measure (\<lambda>(c, v, i). n_constants c - i)") auto

definition orc_compiler_get_constant ::
  "OrcCompiler \<Rightarrow> int \<Rightarrow> 32 word \<Rightarrow> nat \<times> OrcCompiler" where
  "orc_compiler_get_constant c sz v0 =
     (let v = canonical_constant sz v0;
          i = constant_search c v 0;
          c1 = (if i = n_constants c then
                  c\<lparr>n_constants := n_constants c + 1,
                    constants := (constants c)
                      (i := (constants c i)\<lparr>cvalue := v, alloc_reg := 0, use_count := 0\<rparr>)\<rparr>
                else c);
          c2 = c1\<lparr>constants := (constants c1)
                  (i := (constants c1 i)\<lparr>use_count := use_count (constants c1 i) + 1\<rparr>)\<rparr>
      in if alloc_reg (constants c2 i) \<noteq> 0 then (alloc_reg (constants c2 i), c2)
         else (tmpreg c2, c2\<lparr>loaded_constants := loaded_constants c2 @ [(tmpreg c2, sz, v)]\<rparr>))"

text \<open>The value that replicates the low byte of \<open>v\<close> into all four bytes.\<close>

definition splat8 :: "32 word \<Rightarrow> 32 word" where
  "splat8 v =
     (let b = v AND 0xff in b OR push_bit 8 b OR push_bit 16 b OR push_bit 24 b)"

section \<open>The driver up to the backend's initialisation hook\<close>

record OrcProgram =
  prog_insns :: "OrcInstruction list"
  prog_vars :: "nat \<Rightarrow> OrcVariable"
  prog_n_temp_vars :: nat
  backup_func :: bool

record OrcTarget =
  target_data_register_offset :: nat
  compiler_init :: "OrcCompiler \<Rightarrow> OrcCompiler"

text \<open>The context after \<open>memset (compiler, 0, sizeof(OrcCompiler))\<close>.\<close>

definition zero_variable :: OrcVariable where
  "zero_variable =
     \<lparr>name = None, vsize = 0, vartype = ORC_VAR_TYPE_TEMP, used = False, first_use = 0,
      last_use = 0, replaced = False, replacement = 0, alloc = 0, load_dest = False,
      ptr_register = 0, ptr_offset = 0, mask_alloc = 0, aligned_data = 0\<rparr>"

definition zero_compiler :: OrcCompiler where
  "zero_compiler =
     \<lparr>insns = [], vars = (\<lambda>i. zero_variable), n_temp_vars = 0, n_dup_vars = 0,
      error = False, result = ORC_COMPILE_RESULT_OK, messages = [],
      valid_regs = (\<lambda>r. 0), save_regs = (\<lambda>r. 0), used_regs = (\<lambda>r. 0), alloc_regs = (\<lambda>r. 0),
      data_register_offset = 0, need_mask_regs = False, alloc_loop_counter = False,
      loop_counter = 0,
      constants = (\<lambda>i. \<lparr>cvalue = 0, alloc_reg = 0, use_count = 0\<rparr>), n_constants = 0,
      tmpreg = 0, loaded_constants = []\<rparr>"

text \<open>The \<open>error:\<close> label: a zero result is promoted to \<open>UNKNOWN_COMPILE\<close>.\<close>

definition compile_error_exit :: "OrcCompiler \<Rightarrow> OrcCompileResult" where
  "compile_error_exit c =
     (if result c = ORC_COMPILE_RESULT_OK then ORC_COMPILE_RESULT_UNKNOWN_COMPILE else result c)"

text \<open>
  \<open>orc_program_compile_full\<close> from its entry to the call of
  \<open>compiler->target->compiler_init\<close>: \<open>Inl\<close> is a return through the \<open>error:\<close> label,
  \<open>Inr\<close> the context handed to the hook. The first argument is the global
  \<open>_orc_compiler_flag_backup\<close>; a \<open>NULL\<close> target is \<open>None\<close>.
\<close>

definition compile_full_setup ::
  "bool \<Rightarrow> OrcProgram \<Rightarrow> OrcTarget option \<Rightarrow> OrcCompileResult + OrcCompiler" where
  "compile_full_setup flag_backup program target =
     (let compiler = zero_compiler in
      if backup_func program \<and> flag_backup then
        Inl (compile_error_exit
              ((ORC_COMPILER_ERROR compiler ''Compilation disabled'')
                 \<lparr>result := ORC_COMPILE_RESULT_UNKNOWN_COMPILE\<rparr>))
      else
        (case target of
           None \<Rightarrow>
             Inl (compile_error_exit
                   ((ORC_COMPILER_ERROR compiler ''No target given'')
                      \<lparr>result := ORC_COMPILE_RESULT_UNKNOWN_COMPILE\<rparr>))
         | Some t \<Rightarrow>
             (let c1 = compiler\<lparr>data_register_offset := target_data_register_offset t,
                                insns := prog_insns program\<rparr>;
                  c2 = c1\<lparr>vars := (\<lambda>i. if i < ORC_N_VARIABLES then prog_vars program i
                                      else vars c1 i),
                          n_temp_vars := prog_n_temp_vars program,
                          n_dup_vars := 0\<rparr>
              in Inr (foldl (\<lambda>c i. c\<lparr>valid_regs := (valid_regs c)(i := 1)\<rparr>) c2 [0..<32]))))"

section \<open>The violations of the validator\<close>

text \<open>
  The violations the validator looks for, in the specification's words: a destination
  slot in use whose variable has another size; a source slot in use whose variable has
  another size and is neither a constant nor a parameter; a source slot in use, other
  than the first, of a scalar opcode whose variable is neither a constant nor a
  parameter.
\<close>

definition dest_violation :: "OrcCompiler \<Rightarrow> OrcInstruction \<Rightarrow> nat \<Rightarrow> bool" where
  "dest_violation c insn j \<longleftrightarrow>
     dest_size (opcode insn) j \<noteq> 0 \<and>
     vsize (vars c (dest_args insn j)) \<noteq> dest_size (opcode insn) j"

definition src_violation :: "OrcCompiler \<Rightarrow> OrcInstruction \<Rightarrow> nat \<Rightarrow> bool" where
  "src_violation c insn j \<longleftrightarrow>
     src_size (opcode insn) j \<noteq> 0 \<and>
     vartype (vars c (src_args insn j)) \<noteq> ORC_VAR_TYPE_CONST \<and>
     vartype (vars c (src_args insn j)) \<noteq> ORC_VAR_TYPE_PARAM \<and>
     (vsize (vars c (src_args insn j)) \<noteq> src_size (opcode insn) j \<or>
      ORC_STATIC_OPCODE_SCALAR \<in> flags (opcode insn) \<and> 1 \<le> j)"

definition insn_violation :: "OrcCompiler \<Rightarrow> OrcInstruction \<Rightarrow> bool" where
  "insn_violation c insn \<longleftrightarrow>
     (\<exists>j. j < ORC_STATIC_OPCODE_N_DEST \<and> dest_violation c insn j) \<or>
     (\<exists>j. j < ORC_STATIC_OPCODE_N_SRC \<and> src_violation c insn j)"

definition has_violation :: "OrcCompiler \<Rightarrow> bool" where
  "has_violation c \<longleftrightarrow> (\<exists>i. i < n_insns c \<and> insn_violation c (insns c ! i))"

section \<open>An account of the renaming pass when no renaming happens\<close>

text \<open>
  What processing one operand slot does to its variable when the variable is not
  replaced and, for a destination, not a temporary that gets duplicated: the variable
  is marked used (with \<open>first_use = j\<close> when it was not used before), its \<open>last_use\<close>
  becomes \<open>j\<close>, and a destination-kind variable read as a source gets \<open>load_dest\<close>.
\<close>

definition touch :: "bool \<Rightarrow> nat \<Rightarrow> OrcVariable \<Rightarrow> OrcVariable" where
  "touch is_src j v =
     (let v1 = (if is_src \<and> vartype v = ORC_VAR_TYPE_DEST then v\<lparr>load_dest := True\<rparr> else v);
          v2 = (if \<not> used v1 then v1\<lparr>used := True, first_use := int j\<rparr> else v1)
      in v2\<lparr>last_use := int j\<rparr>)"

definition apply_touches ::
  "(nat \<times> bool \<times> nat) list \<Rightarrow> (nat \<Rightarrow> OrcVariable) \<Rightarrow> nat \<Rightarrow> OrcVariable" where
  "apply_touches ops f = foldl (\<lambda>g (v, s, j). g(v := touch s j (g v))) f ops"

text \<open>The operand slots in use of instruction \<open>j\<close>, sources first, and of the first \<open>n\<close> instructions.\<close>

definition src_ops :: "OrcInstruction list \<Rightarrow> nat \<Rightarrow> nat list \<Rightarrow> (nat \<times> bool \<times> nat) list" where
  "src_ops I j ks =
     map (\<lambda>k. (src_args (I ! j) k, True, j)) (filter (\<lambda>k. src_size (opcode (I ! j)) k \<noteq> 0) ks)"

definition dest_ops :: "OrcInstruction list \<Rightarrow> nat \<Rightarrow> nat list \<Rightarrow> (nat \<times> bool \<times> nat) list" where
  "dest_ops I j ks =
     map (\<lambda>k. (dest_args (I ! j) k, False, j)) (filter (\<lambda>k. dest_size (opcode (I ! j)) k \<noteq> 0) ks)"

definition insn_ops :: "OrcInstruction list \<Rightarrow> nat \<Rightarrow> (nat \<times> bool \<times> nat) list" where
  "insn_ops I j =
     src_ops I j [0..<ORC_STATIC_OPCODE_N_SRC] @ dest_ops I j [0..<ORC_STATIC_OPCODE_N_DEST]"

definition prog_ops :: "OrcInstruction list \<Rightarrow> nat \<Rightarrow> (nat \<times> bool \<times> nat) list" where
  "prog_ops I n = concat (map (insn_ops I) [0..<n])"

fun last_touch :: "(nat \<times> bool \<times> nat) list \<Rightarrow> nat \<Rightarrow> nat option" where
  "last_touch [] w = None"
| "last_touch ((v, s, j) # ops) w =
     (case last_touch ops w of
        Some j' \<Rightarrow> Some j'
      | None \<Rightarrow> if w = v then Some j else None)"

text \<open>
  A context in which the pass cannot rename: no variable carries a rename link and no
  destination slot in use holds a temporary.
\<close>

definition no_renaming :: "OrcCompiler \<Rightarrow> bool" where
  "no_renaming c \<longleftrightarrow>
     (\<forall>v. \<not> replaced (vars c v)) \<and>
     (\<forall>j k. j < n_insns c \<and> dest_size (opcode (insns c ! j)) k \<noteq> 0 \<longrightarrow>
        vartype (vars c (dest_args (insns c ! j) k)) \<noteq> ORC_VAR_TYPE_TEMP)"

section \<open>Bookkeeping for the local allocation pass\<close>




text \<open>The chaining test of instruction \<open>j\<close>.\<close>

definition chain_fires :: "OrcCompiler \<Rightarrow> nat \<Rightarrow> bool" where
  "chain_fires c j \<longleftrightarrow>
     ORC_STATIC_OPCODE_ACCUMULATOR \<notin> flags (opcode (insns c ! j)) \<and>
     dest_size (opcode (insns c ! j)) 1 = 0 \<and>
     last_use (vars c (src_args (insns c ! j) 0)) = int j"

text \<open>
  The contexts on which the release property of the local pass is proved: vector
  registers are numbered from 2 on; every named variable in the first
  \<open>ORC_N_VARIABLES\<close> slots of the table, the slots that the birth and death loops
  visit, is either global (negative \<open>first_use\<close> and \<open>last_use\<close>) or has no
  register yet and a live range \<open>0 \<le> first_use \<le> last_use < n_insns\<close>; and whenever
  chaining fires, its first source and its destination are two different named
  variables in those slots, and the destination is born at that instruction.
  Temporaries start at slot \<open>ORC_VAR_T1\<close>, beyond those slots, so chaining on a
  temporary is not among these contexts.
\<close>

definition local_alloc_ready :: "OrcCompiler \<Rightarrow> bool" where
  "local_alloc_ready c \<longleftrightarrow>
     2 \<le> data_register_offset c \<and>
     (\<forall>i. i < ORC_N_VARIABLES \<and> name (vars c i) \<noteq> None \<longrightarrow>
        first_use (vars c i) < 0 \<and> last_use (vars c i) < 0 \<or>
        alloc (vars c i) = 0 \<and> 0 \<le> first_use (vars c i) \<and>
        first_use (vars c i) \<le> last_use (vars c i) \<and>
        last_use (vars c i) < int (n_insns c)) \<and>
     (\<forall>j. j < n_insns c \<and> chain_fires c j \<longrightarrow>
        src_args (insns c ! j) 0 < ORC_N_VARIABLES \<and>
        name (vars c (src_args (insns c ! j) 0)) \<noteq> None \<and>
        dest_args (insns c ! j) 0 < ORC_N_VARIABLES \<and>
        name (vars c (dest_args (insns c ! j) 0)) \<noteq> None \<and>
        dest_args (insns c ! j) 0 \<noteq> src_args (insns c ! j) 0 \<and>
        first_use (vars c (dest_args (insns c ! j) 0)) = int j)"




section \<open>Example programs\<close>

definition example_var :: "string \<Rightarrow> int \<Rightarrow> OrcVarType \<Rightarrow> OrcVariable" where
  "example_var nm sz ty = zero_variable\<lparr>name := Some nm, vsize := sz, vartype := ty\<rparr>"

definition example_opcode :: "string \<Rightarrow> nat \<Rightarrow> OrcOpcodeFlag set \<Rightarrow> OrcStaticOpcode" where
  "example_opcode nm n_src fl =
     \<lparr>opname = nm, dest_size = (\<lambda>k. if k = 0 then 2 else 0),
      src_size = (\<lambda>k. if k < n_src then 2 else 0), flags = fl\<rparr>"

definition example_insn :: "OrcStaticOpcode \<Rightarrow> nat \<Rightarrow> nat \<Rightarrow> nat \<Rightarrow> OrcInstruction" where
  "example_insn opc d s1 s2 =
     \<lparr>opcode = opc, dest_args = (\<lambda>k. if k = 0 then d else 0),
      src_args = (\<lambda>k. if k = 0 then s1 else if k = 1 then s2 else 0)\<rparr>"

definition copyw :: OrcStaticOpcode where
  "copyw = example_opcode ''copyw'' 1 {}"

definition addw :: OrcStaticOpcode where
  "addw = example_opcode ''addw'' 2 {}"

definition shlw :: OrcStaticOpcode where
  "shlw = example_opcode ''shlw'' 2 {ORC_STATIC_OPCODE_SCALAR}"

definition example_pool :: OrcCompiler where
  "example_pool =
     zero_compiler\<lparr>valid_regs := (\<lambda>r. if 32 \<le> r \<and> r < 40 then 1 else 0),
                   save_regs := (\<lambda>r. if r = 32 then 1 else 0)\<rparr>"


definition example_program :: OrcProgram where
  "example_program =
     \<lparr>prog_insns = [example_insn copyw ORC_VAR_D1 ORC_VAR_S1 0],
      prog_vars = (\<lambda>i. if i = ORC_VAR_D1 then example_var ''d1'' 2 ORC_VAR_TYPE_DEST
                        else if i = ORC_VAR_S1 then example_var ''s1'' 2 ORC_VAR_TYPE_SRC
                        else zero_variable),
      prog_n_temp_vars = 0, backup_func = False\<rparr>"

definition example_target :: OrcTarget where
  "example_target = \<lparr>target_data_register_offset = ORC_VEC_REG_BASE, compiler_init = (\<lambda>c. c)\<rparr>"

text \<open>A pool of two constants, the second one already in register 66.\<close>

definition example_constants :: OrcCompiler where
  "example_constants =
     zero_compiler\<lparr>constants :=
                     (\<lambda>i. if i = 0 then \<lparr>cvalue = 5, alloc_reg = 0, use_count = 3\<rparr>
                          else if i = 1 then \<lparr>cvalue = 0x7f7f7f7f, alloc_reg = 66, use_count = 1\<rparr>
                          else \<lparr>cvalue = 0, alloc_reg = 0, use_count = 0\<rparr>),
                   n_constants := 2, tmpreg := 70\<rparr>"

definition example_low_pool :: OrcCompiler where
  "example_low_pool = zero_compiler\<lparr>valid_regs := (\<lambda>r. if r < 32 then 1 else 0)\<rparr>"

definition example_loop_counter :: OrcCompiler where
  "example_loop_counter = example_pool\<lparr>alloc_loop_counter := True\<rparr>"

definition example_loop_counter_exhausted :: OrcCompiler where
  "example_loop_counter_exhausted = zero_compiler\<lparr>alloc_loop_counter := True\<rparr>"

definition example_vars :: "(nat \<times> OrcVariable) list \<Rightarrow> nat \<Rightarrow> OrcVariable" where
  "example_vars l i = (case map_of l i of Some v \<Rightarrow> v | None \<Rightarrow> zero_variable)"

definition example_context :: "OrcInstruction list \<Rightarrow> (nat \<times> OrcVariable) list \<Rightarrow> OrcCompiler" where
  "example_context is l =
     zero_compiler\<lparr>insns := is, vars := example_vars l,
                   valid_regs := (\<lambda>r. if 32 \<le> r \<and> r < 96 then 1 else 0),
                   data_register_offset := ORC_VEC_REG_BASE\<rparr>"

definition example_scalar :: OrcCompiler where
  "example_scalar =
     example_context [example_insn shlw ORC_VAR_D1 ORC_VAR_S1 ORC_VAR_C1]
       [(ORC_VAR_D1, example_var ''d1'' 2 ORC_VAR_TYPE_DEST),
        (ORC_VAR_S1, example_var ''s1'' 2 ORC_VAR_TYPE_SRC),
        (ORC_VAR_C1, example_var ''c1'' 2 ORC_VAR_TYPE_CONST)]"

definition example_scalar_src :: OrcCompiler where
  "example_scalar_src =
     example_context [example_insn shlw ORC_VAR_D1 ORC_VAR_S1 ORC_VAR_S2]
       [(ORC_VAR_D1, example_var ''d1'' 2 ORC_VAR_TYPE_DEST),
        (ORC_VAR_S1, example_var ''s1'' 2 ORC_VAR_TYPE_SRC),
        (ORC_VAR_S2, example_var ''s2'' 2 ORC_VAR_TYPE_SRC)]"

definition example_redefine :: OrcCompiler where
  "example_redefine =
     (example_context [example_insn copyw ORC_VAR_T1 ORC_VAR_S1 0]
        [(ORC_VAR_S1, example_var ''s1'' 2 ORC_VAR_TYPE_SRC),
         (ORC_VAR_T1, (example_var ''t1'' 2 ORC_VAR_TYPE_TEMP)\<lparr>used := True\<rparr>)])
       \<lparr>n_temp_vars := 1\<rparr>"

definition example_eight_temps :: OrcCompiler where
  "example_eight_temps =
     (example_context
        [example_insn copyw ORC_VAR_T1 ORC_VAR_S1 0, example_insn copyw ORC_VAR_T1 ORC_VAR_S1 0]
        [(ORC_VAR_S1, example_var ''s1'' 2 ORC_VAR_TYPE_SRC),
         (ORC_VAR_T1, example_var ''t1'' 2 ORC_VAR_TYPE_TEMP),
         (ORC_VAR_T1 + 1, example_var ''t2'' 2 ORC_VAR_TYPE_TEMP),
         (ORC_VAR_T1 + 2, example_var ''t3'' 2 ORC_VAR_TYPE_TEMP),
         (ORC_VAR_T1 + 3, example_var ''t4'' 2 ORC_VAR_TYPE_TEMP),
         (ORC_VAR_T1 + 4, example_var ''t5'' 2 ORC_VAR_TYPE_TEMP),
         (ORC_VAR_T1 + 5, example_var ''t6'' 2 ORC_VAR_TYPE_TEMP),
         (ORC_VAR_T1 + 6, example_var ''t7'' 2 ORC_VAR_TYPE_TEMP),
         (ORC_VAR_T1 + 7, example_var ''t8'' 2 ORC_VAR_TYPE_TEMP)])
       \<lparr>n_temp_vars := 8\<rparr>"

text \<open>The contexts the renaming pass goes through on \<open>example_eight_temps\<close>.\<close>

definition eight_temps_src0 :: OrcCompiler where
  "eight_temps_src0 =
     var_update ORC_VAR_S1 (\<lambda>v. v\<lparr>last_use := 0\<rparr>)
       (var_update ORC_VAR_S1 (\<lambda>v. v\<lparr>used := True, first_use := 0\<rparr>) example_eight_temps)"

definition eight_temps_insn0 :: OrcCompiler where
  "eight_temps_insn0 =
     var_update ORC_VAR_T1 (\<lambda>v. v\<lparr>last_use := 0\<rparr>)
       (var_update ORC_VAR_T1 (\<lambda>v. v\<lparr>used := True, first_use := 0\<rparr>) eight_temps_src0)"

definition eight_temps_src1 :: OrcCompiler where
  "eight_temps_src1 = var_update ORC_VAR_S1 (\<lambda>v. v\<lparr>last_use := 1\<rparr>) eight_temps_insn0"

definition example_single_temp :: OrcCompiler where
  "example_single_temp =
     (example_context [example_insn copyw ORC_VAR_T1 ORC_VAR_S1 0]
        [(ORC_VAR_S1, example_var ''s1'' 2 ORC_VAR_TYPE_SRC),
         (ORC_VAR_T1, example_var ''t1'' 2 ORC_VAR_TYPE_TEMP)])
       \<lparr>n_temp_vars := 1\<rparr>"

text \<open>The contexts of the first run on \<open>example_single_temp\<close> and of the second run's source slot.\<close>

definition single_temp_src0 :: OrcCompiler where
  "single_temp_src0 =
     var_update ORC_VAR_S1 (\<lambda>v. v\<lparr>last_use := 0\<rparr>)
       (var_update ORC_VAR_S1 (\<lambda>v. v\<lparr>used := True, first_use := 0\<rparr>) example_single_temp)"

definition single_temp_once :: OrcCompiler where
  "single_temp_once =
     var_update ORC_VAR_T1 (\<lambda>v. v\<lparr>last_use := 0\<rparr>)
       (var_update ORC_VAR_T1 (\<lambda>v. v\<lparr>used := True, first_use := 0\<rparr>) single_temp_src0)"

definition single_temp_again_src0 :: OrcCompiler where
  "single_temp_again_src0 = var_update ORC_VAR_S1 (\<lambda>v. v\<lparr>last_use := 0\<rparr>) single_temp_once"



definition example_copy :: OrcCompiler where
  "example_copy =
     example_context [example_insn copyw ORC_VAR_D1 ORC_VAR_S1 0]
       [(ORC_VAR_D1, example_var ''d1'' 2 ORC_VAR_TYPE_DEST),
        (ORC_VAR_S1, example_var ''s1'' 2 ORC_VAR_TYPE_SRC)]"




















section \<open>Properties of the register allocator\<close>

declare allocate_scan_nosave.simps [simp del] allocate_scan_any.simps [simp del]

lemma and_1f_nat: "i < 32 \<Longrightarrow> (i::nat) AND 0x1f = i"
proof -
  assume "i < 32"
  have "(0x1f::nat) = mask 5" by (simp add: mask_eq_exp_minus_1)
  then have "i AND 0x1f = take_bit 5 i" by (simp add: take_bit_eq_mask)
  also have "\<dots> = i" using \<open>i < 32\<close> by (simp add: take_bit_nat_eq_self)
  finally show ?thesis .
qed

lemma scan_nosave_hit:
  "i0 \<le> i \<Longrightarrow> i < 32 \<Longrightarrow> reg_preferred c (off + i) \<Longrightarrow>
   (\<forall>i'. i0 \<le> i' \<and> i' < i \<longrightarrow> \<not> reg_preferred c (off + i')) \<Longrightarrow>
   allocate_scan_nosave c off 0 i0 = Some (off + i, take_register c (off + i))"
proof (induction c off "0::nat" i0 rule: allocate_scan_nosave.induct)
  case (1 c offset i0)
  show ?case
  proof (cases "i0 = i")
    case True
    with 1 show ?thesis by (subst allocate_scan_nosave.simps) (simp add: and_1f_nat reg_preferred_def Let_def)
  next
    case False
    with 1 have lt: "i0 < i" by simp
    with 1 have np: "\<not> reg_preferred c (offset + i0)" by simp
    have "allocate_scan_nosave c offset 0 (i0 + 1) = Some (offset + i, take_register c (offset + i))"
      using 1 lt np by (intro "1.hyps") (auto simp: and_1f_nat reg_preferred_def Let_def)
    with 1 lt np show ?thesis
      by (subst allocate_scan_nosave.simps) (auto simp: and_1f_nat reg_preferred_def Let_def)
  qed
qed

lemma scan_nosave_miss:
  "(\<forall>i. i0 \<le> i \<and> i < 32 \<longrightarrow> \<not> reg_preferred c (off + i)) \<Longrightarrow>
   allocate_scan_nosave c off 0 i0 = None"
proof (induction c off "0::nat" i0 rule: allocate_scan_nosave.induct)
  case (1 c offset i0)
  show ?case
  proof (cases "i0 < 32")
    case True
    with 1 have np: "\<not> reg_preferred c (offset + i0)" by simp
    have "allocate_scan_nosave c offset 0 (i0 + 1) = None"
      using 1 True np by (intro "1.hyps") (auto simp: and_1f_nat reg_preferred_def Let_def)
    with True np show ?thesis
      by (subst allocate_scan_nosave.simps) (auto simp: and_1f_nat reg_preferred_def Let_def)
  next
    case False
    then show ?thesis by (subst allocate_scan_nosave.simps) simp
  qed
qed

lemma scan_any_hit:
  "i0 \<le> i \<Longrightarrow> i < 32 \<Longrightarrow> reg_free c (off + i) \<Longrightarrow>
   (\<forall>i'. i0 \<le> i' \<and> i' < i \<longrightarrow> \<not> reg_free c (off + i')) \<Longrightarrow>
   allocate_scan_any c off 0 i0 = Some (off + i, take_register c (off + i))"
proof (induction c off "0::nat" i0 rule: allocate_scan_any.induct)
  case (1 c offset i0)
  show ?case
  proof (cases "i0 = i")
    case True
    with 1 show ?thesis by (subst allocate_scan_any.simps) (simp add: and_1f_nat reg_free_def Let_def)
  next
    case False
    with 1 have lt: "i0 < i" by simp
    with 1 have np: "\<not> reg_free c (offset + i0)" by simp
    have "allocate_scan_any c offset 0 (i0 + 1) = Some (offset + i, take_register c (offset + i))"
      using 1 lt np by (intro "1.hyps") (auto simp: and_1f_nat reg_free_def Let_def)
    with 1 lt np show ?thesis
      by (subst allocate_scan_any.simps) (auto simp: and_1f_nat reg_free_def Let_def)
  qed
qed

lemma scan_any_miss:
  "(\<forall>i. i0 \<le> i \<and> i < 32 \<longrightarrow> \<not> reg_free c (off + i)) \<Longrightarrow>
   allocate_scan_any c off 0 i0 = None"
proof (induction c off "0::nat" i0 rule: allocate_scan_any.induct)
  case (1 c offset i0)
  show ?case
  proof (cases "i0 < 32")
    case True
    with 1 have np: "\<not> reg_free c (offset + i0)" by simp
    have "allocate_scan_any c offset 0 (i0 + 1) = None"
      using 1 True np by (intro "1.hyps") (auto simp: and_1f_nat reg_free_def Let_def)
    with True np show ?thesis
      by (subst allocate_scan_any.simps) (auto simp: and_1f_nat reg_free_def Let_def)
  next
    case False
    then show ?thesis by (subst allocate_scan_any.simps) simp
  qed
qed

lemma allocate_register_unfold:
  "orc_compiler_allocate_register c d =
     (case allocate_scan_nosave c (pool_offset c d) 0 0 of
        Some r \<Rightarrow> r
      | None \<Rightarrow>
         (case allocate_scan_any c (pool_offset c d) 0 0 of
            Some r \<Rightarrow> r
          | None \<Rightarrow> (0, register_overflow c d)))"
  by (simp add: orc_compiler_allocate_register_def pool_offset_def register_overflow_def
      ORC_COMPILER_ERROR_def pool_name_def Let_def split: option.split)

lemma allocate_preferred:
  assumes "i < 32" "reg_preferred c (pool_offset c d + i)"
    "\<forall>i'<i. \<not> reg_preferred c (pool_offset c d + i')"
  shows "orc_compiler_allocate_register c d =
           (pool_offset c d + i, take_register c (pool_offset c d + i))"
  using scan_nosave_hit [of 0 i c "pool_offset c d"] assms
  by (simp add: allocate_register_unfold)

lemma allocate_fallback:
  assumes "\<forall>i<32. \<not> reg_preferred c (pool_offset c d + i)"
    "i < 32" "reg_free c (pool_offset c d + i)"
    "\<forall>i'<i. \<not> reg_free c (pool_offset c d + i')"
  shows "orc_compiler_allocate_register c d =
           (pool_offset c d + i, take_register c (pool_offset c d + i))"
  using scan_nosave_miss [of 0 c "pool_offset c d"] scan_any_hit [of 0 i c "pool_offset c d"] assms
  by (simp add: allocate_register_unfold)

lemma allocate_overflow:
  assumes "\<forall>i<32. \<not> reg_free c (pool_offset c d + i)"
  shows "orc_compiler_allocate_register c d = (0, register_overflow c d)"
proof -
  have "\<forall>i<32. \<not> reg_preferred c (pool_offset c d + i)"
    using assms by (simp add: reg_free_def reg_preferred_def)
  then show ?thesis
    using scan_nosave_miss [of 0 c "pool_offset c d"] scan_any_miss [of 0 c "pool_offset c d"] assms
    by (simp add: allocate_register_unfold)
qed

lemma least_below:
  fixes P :: "nat \<Rightarrow> bool"
  assumes "\<exists>i<n. P i"
  obtains i where "i < n" "P i" "\<forall>i'<i. \<not> P i'"
proof -
  define i where "i = (LEAST i. P i)"
  from assms obtain k where k: "k < n" "P k" by blast
  have "P i" unfolding i_def using k(2) by (rule LeastI)
  moreover have "i \<le> k" unfolding i_def using k(2) by (rule Least_le)
  moreover have "\<forall>i'<i. \<not> P i'" unfolding i_def using not_less_Least by blast
  ultimately show ?thesis using that [of i] k(1) by (meson le_less_trans)
qed

lemma allocate_cases:
  obtains (taken) i where "i < 32" "reg_free c (pool_offset c d + i)"
      "orc_compiler_allocate_register c d =
         (pool_offset c d + i, take_register c (pool_offset c d + i))"
  | (overflow) "\<forall>i<32. \<not> reg_free c (pool_offset c d + i)"
      "orc_compiler_allocate_register c d = (0, register_overflow c d)"
proof (cases "\<exists>i<32. reg_preferred c (pool_offset c d + i)")
  case True
  then obtain i where a: "i < 32" "reg_preferred c (pool_offset c d + i)"
    and b: "\<forall>i'<i. \<not> reg_preferred c (pool_offset c d + i')"
    by (rule least_below)
  from a have "reg_free c (pool_offset c d + i)" by (simp add: reg_free_def reg_preferred_def)
  then show ?thesis using a(1) allocate_preferred [OF a b] by (rule_tac taken)
next
  case False
  then have np: "\<forall>i<32. \<not> reg_preferred c (pool_offset c d + i)" by blast
  show ?thesis
  proof (cases "\<exists>i<32. reg_free c (pool_offset c d + i)")
    case True
    then obtain i where a: "i < 32" "reg_free c (pool_offset c d + i)"
      and b: "\<forall>i'<i. \<not> reg_free c (pool_offset c d + i')"
      by (rule least_below)
    show ?thesis using a allocate_fallback [OF np a b] by (rule taken)
  next
    case False
    then have nf: "\<forall>i<32. \<not> reg_free c (pool_offset c d + i)" by blast
    show ?thesis using nf allocate_overflow [OF nf] by (rule overflow)
  qed
qed

text \<open>
  C3. The allocator scans the 32-register window of the selected pool twice. The first
  scan returns the first register that is valid, not callee-saved and unallocated; when
  there is none, the second scan returns the first register that is valid and
  unallocated. A returned register has its refcount incremented and its \<open>used\<close> mark
  set to 1. When both scans fail, the diagnostic "register overflow for vector reg" or
  "register overflow for gp reg" is recorded, the result becomes \<open>UNKNOWN_COMPILE\<close> and
  0 is returned.
\<close>

theorem allocate_register_two_scans:
  "(i < 32 \<and> reg_preferred c (pool_offset c d + i) \<and>
    (\<forall>i'<i. \<not> reg_preferred c (pool_offset c d + i')) \<longrightarrow>
      orc_compiler_allocate_register c d =
        (pool_offset c d + i,
         c\<lparr>alloc_regs := (alloc_regs c)
              (pool_offset c d + i := alloc_regs c (pool_offset c d + i) + 1),
           used_regs := (used_regs c)(pool_offset c d + i := 1)\<rparr>)) \<and>
   ((\<forall>i<32. \<not> reg_preferred c (pool_offset c d + i)) \<and>
    i < 32 \<and> reg_free c (pool_offset c d + i) \<and>
    (\<forall>i'<i. \<not> reg_free c (pool_offset c d + i')) \<longrightarrow>
      orc_compiler_allocate_register c d =
        (pool_offset c d + i,
         c\<lparr>alloc_regs := (alloc_regs c)
              (pool_offset c d + i := alloc_regs c (pool_offset c d + i) + 1),
           used_regs := (used_regs c)(pool_offset c d + i := 1)\<rparr>)) \<and>
   ((\<forall>i<32. \<not> reg_free c (pool_offset c d + i)) \<longrightarrow>
      orc_compiler_allocate_register c d =
        (0, c\<lparr>error := True,
               messages := messages c @ [''register overflow for '' @ pool_name d @ '' reg''],
               result := ORC_COMPILE_RESULT_UNKNOWN_COMPILE\<rparr>))"
proof (intro conjI impI)
  assume "i < 32 \<and> reg_preferred c (pool_offset c d + i) \<and>
    (\<forall>i'<i. \<not> reg_preferred c (pool_offset c d + i'))"
  then show "orc_compiler_allocate_register c d =
        (pool_offset c d + i,
         c\<lparr>alloc_regs := (alloc_regs c)
              (pool_offset c d + i := alloc_regs c (pool_offset c d + i) + 1),
           used_regs := (used_regs c)(pool_offset c d + i := 1)\<rparr>)"
    using allocate_preferred [of i c d] by (simp add: take_register_def)
next
  assume "(\<forall>i<32. \<not> reg_preferred c (pool_offset c d + i)) \<and>
    i < 32 \<and> reg_free c (pool_offset c d + i) \<and>
    (\<forall>i'<i. \<not> reg_free c (pool_offset c d + i'))"
  then show "orc_compiler_allocate_register c d =
        (pool_offset c d + i,
         c\<lparr>alloc_regs := (alloc_regs c)
              (pool_offset c d + i := alloc_regs c (pool_offset c d + i) + 1),
           used_regs := (used_regs c)(pool_offset c d + i := 1)\<rparr>)"
    using allocate_fallback [of c d i] by (simp add: take_register_def)
next
  assume "\<forall>i<32. \<not> reg_free c (pool_offset c d + i)"
  then show "orc_compiler_allocate_register c d =
        (0, c\<lparr>error := True,
               messages := messages c @ [''register overflow for '' @ pool_name d @ '' reg''],
               result := ORC_COMPILE_RESULT_UNKNOWN_COMPILE\<rparr>)"
    using allocate_overflow [of c d] by (simp add: register_overflow_def)
qed

theorem allocate_register_two_scans_witness:
  "orc_compiler_allocate_register example_pool False =
     (33, example_pool\<lparr>alloc_regs := (alloc_regs example_pool)(33 := 1),
                       used_regs := (used_regs example_pool)(33 := 1)\<rparr>) \<and>
   orc_compiler_allocate_register (example_pool\<lparr>save_regs := (\<lambda>r. 1)\<rparr>) False =
     (32, example_pool\<lparr>save_regs := (\<lambda>r. 1), alloc_regs := (alloc_regs example_pool)(32 := 1),
                       used_regs := (used_regs example_pool)(32 := 1)\<rparr>) \<and>
   orc_compiler_allocate_register zero_compiler True =
     (0, zero_compiler\<lparr>error := True, messages := [''register overflow for vector reg''],
                       result := ORC_COMPILE_RESULT_UNKNOWN_COMPILE\<rparr>)"
proof (intro conjI)
  show "orc_compiler_allocate_register example_pool False =
     (33, example_pool\<lparr>alloc_regs := (alloc_regs example_pool)(33 := 1),
                       used_regs := (used_regs example_pool)(33 := 1)\<rparr>)"
    using allocate_register_two_scans [of 1 example_pool False]
    by (simp add: example_pool_def zero_compiler_def pool_offset_def ORC_GP_REG_BASE_def
        reg_preferred_def)
  show "orc_compiler_allocate_register (example_pool\<lparr>save_regs := (\<lambda>r. 1)\<rparr>) False =
     (32, example_pool\<lparr>save_regs := (\<lambda>r. 1), alloc_regs := (alloc_regs example_pool)(32 := 1),
                       used_regs := (used_regs example_pool)(32 := 1)\<rparr>)"
    using allocate_register_two_scans [of 0 "example_pool\<lparr>save_regs := (\<lambda>r. 1)\<rparr>" False]
    by (simp add: example_pool_def zero_compiler_def pool_offset_def ORC_GP_REG_BASE_def
        reg_preferred_def reg_free_def)
  show "orc_compiler_allocate_register zero_compiler True =
     (0, zero_compiler\<lparr>error := True, messages := [''register overflow for vector reg''],
                       result := ORC_COMPILE_RESULT_UNKNOWN_COMPILE\<rparr>)"
    using allocate_register_two_scans [of 0 zero_compiler True]
    by (simp add: zero_compiler_def pool_offset_def reg_free_def pool_name_def)
qed


section \<open>Properties of the constant pool\<close>

lemma canonical_constant_byte: "canonical_constant 1 v = splat8 v"
proof -
  have m8: "(0xff :: 32 word) = mask 8" by (simp add: mask_eq_exp_minus_1)
  have m16: "(0xffff :: 32 word) = mask 16" by (simp add: mask_eq_exp_minus_1)
  show ?thesis
    unfolding canonical_constant_def splat8_def Let_def m8 m16
    by (rule bit_eqI) (auto simp: bit_simps)
qed

lemma canonical_constant_word: "canonical_constant 4 v = v"
  by (simp add: canonical_constant_def)

lemma get_constant_canonical:
  "canonical_constant sz v = canonical_constant sz' v' \<Longrightarrow>
   fst (orc_compiler_get_constant c sz v) = fst (orc_compiler_get_constant c sz' v') \<and>
   constants (snd (orc_compiler_get_constant c sz v)) =
     constants (snd (orc_compiler_get_constant c sz' v')) \<and>
   n_constants (snd (orc_compiler_get_constant c sz v)) =
     n_constants (snd (orc_compiler_get_constant c sz' v'))"
  by (simp add: orc_compiler_get_constant_def Let_def)

declare constant_search.simps [simp del]

lemma constant_search_first:
  "i0 \<le> n_constants c \<Longrightarrow>
   i0 \<le> constant_search c K i0 \<and> constant_search c K i0 \<le> n_constants c \<and>
   (constant_search c K i0 < n_constants c \<longrightarrow>
      cvalue (constants c (constant_search c K i0)) = K) \<and>
   (\<forall>k. i0 \<le> k \<and> k < constant_search c K i0 \<longrightarrow> cvalue (constants c k) \<noteq> K)"
proof (induction c K i0 rule: constant_search.induct)
  case (1 c v i)
  show ?case
  proof (cases "i < n_constants c \<and> cvalue (constants c i) \<noteq> v")
    case True
    then have s: "constant_search c v i = constant_search c v (i + 1)"
      by (subst constant_search.simps) simp
    from True 1 have IH: "i + 1 \<le> constant_search c v (i + 1) \<and>
        constant_search c v (i + 1) \<le> n_constants c \<and>
        (constant_search c v (i + 1) < n_constants c \<longrightarrow>
           cvalue (constants c (constant_search c v (i + 1))) = v) \<and>
        (\<forall>k. i + 1 \<le> k \<and> k < constant_search c v (i + 1) \<longrightarrow> cvalue (constants c k) \<noteq> v)"
      by simp
    show ?thesis
      unfolding s
    proof (intro conjI allI impI)
      fix k
      assume "i \<le> k \<and> k < constant_search c v (i + 1)"
      then have "k = i \<or> i + 1 \<le> k \<and> k < constant_search c v (i + 1)" by auto
      with True IH show "cvalue (constants c k) \<noteq> v" by blast
    qed (use IH in simp_all)
  next
    case False
    then have s: "constant_search c v i = i"
      by (subst constant_search.simps) auto
    from False 1(2) show ?thesis unfolding s by auto
  qed
qed

lemma constant_search_unique:
  assumes "i \<le> n_constants c"
    and "i < n_constants c \<longrightarrow> cvalue (constants c i) = K"
    and "\<forall>k<i. cvalue (constants c k) \<noteq> K"
  shows "constant_search c K 0 = i"
proof -
  let ?j = "constant_search c K 0"
  from constant_search_first [of 0 c K]
  have j: "?j \<le> n_constants c" "?j < n_constants c \<longrightarrow> cvalue (constants c ?j) = K"
    "\<forall>k<?j. cvalue (constants c k) \<noteq> K"
    by simp_all
  have "\<not> ?j < i"
    using j(1,2) assms(1,3) by (metis less_le_trans)
  moreover have "\<not> i < ?j"
    using j(1,3) assms(2) by (metis less_le_trans)
  ultimately show ?thesis by simp
qed

lemma constant_all_fields:
  "(r :: OrcConstant)\<lparr>cvalue := a, alloc_reg := b, use_count := d\<rparr> =
     \<lparr>cvalue = a, alloc_reg = b, use_count = d\<rparr>"
  by (cases r) simp

lemma get_constant_entry:
  "(let K = canonical_constant sz v0;
        i = constant_search c K 0;
        e = (if i = n_constants c then \<lparr>cvalue = K, alloc_reg = 0, use_count = 1\<rparr>
             else (constants c i)\<lparr>use_count := use_count (constants c i) + 1\<rparr>)
    in n_constants (snd (orc_compiler_get_constant c sz v0)) =
         (if i = n_constants c then n_constants c + 1 else n_constants c) \<and>
       constants (snd (orc_compiler_get_constant c sz v0)) = (constants c)(i := e) \<and>
       tmpreg (snd (orc_compiler_get_constant c sz v0)) = tmpreg c \<and>
       fst (orc_compiler_get_constant c sz v0) =
         (if alloc_reg e \<noteq> 0 then alloc_reg e else tmpreg c))"
  by (simp add: orc_compiler_get_constant_def Let_def constant_all_fields)

lemma get_constant_again:
  fixes c :: OrcCompiler and K :: "32 word"
  assumes K: "canonical_constant sz v0 = K" and K': "canonical_constant sz' v0' = K"
  defines "i \<equiv> constant_search c K 0"
  defines "e \<equiv> (if i = n_constants c then \<lparr>cvalue = K, alloc_reg = 0, use_count = 1\<rparr>
             else (constants c i)\<lparr>use_count := use_count (constants c i) + 1\<rparr>)"
  defines "c1 \<equiv> snd (orc_compiler_get_constant c sz v0)"
  shows "i \<le> n_constants c" "\<forall>k<i. cvalue (constants c k) \<noteq> K" "cvalue e = K"
    "n_constants c1 = (if i = n_constants c then n_constants c + 1 else n_constants c)"
    "i < n_constants c1"
    "constants c1 = (constants c)(i := e)"
    "fst (orc_compiler_get_constant c sz v0) = (if alloc_reg e \<noteq> 0 then alloc_reg e else tmpreg c)"
    "constant_search c1 K 0 = i"
    "n_constants (snd (orc_compiler_get_constant c1 sz' v0')) = n_constants c1"
    "constants (snd (orc_compiler_get_constant c1 sz' v0')) =
       (constants c1)(i := e\<lparr>use_count := use_count e + 1\<rparr>)"
    "fst (orc_compiler_get_constant c1 sz' v0') = fst (orc_compiler_get_constant c sz v0)"
proof -
  from constant_search_first [of 0 c K]
  have s: "i \<le> n_constants c" "i < n_constants c \<longrightarrow> cvalue (constants c i) = K"
    "\<forall>k<i. cvalue (constants c k) \<noteq> K"
    by (simp_all add: i_def)
  show "i \<le> n_constants c" "\<forall>k<i. cvalue (constants c k) \<noteq> K" by fact+
  show e: "cvalue e = K" using s(1,2) by (auto simp: e_def)
  from get_constant_entry [of sz v0 c]
  have g: "n_constants c1 = (if i = n_constants c then n_constants c + 1 else n_constants c)"
    "constants c1 = (constants c)(i := e)" "tmpreg c1 = tmpreg c"
    "fst (orc_compiler_get_constant c sz v0) = (if alloc_reg e \<noteq> 0 then alloc_reg e else tmpreg c)"
    unfolding K by (simp_all add: Let_def i_def e_def c1_def)
  show "n_constants c1 = (if i = n_constants c then n_constants c + 1 else n_constants c)"
    "constants c1 = (constants c)(i := e)"
    "fst (orc_compiler_get_constant c sz v0) = (if alloc_reg e \<noteq> 0 then alloc_reg e else tmpreg c)"
    by fact+
  show l: "i < n_constants c1" using s(1) g(1) by auto
  have "\<forall>k<i. cvalue (constants c1 k) \<noteq> K" using s(3) g(2) by simp
  moreover have "cvalue (constants c1 i) = K" using e g(2) by simp
  ultimately show f: "constant_search c1 K 0 = i"
    using l by (intro constant_search_unique) simp_all
  have h: "n_constants (snd (orc_compiler_get_constant c1 sz' v0')) = n_constants c1"
    "constants (snd (orc_compiler_get_constant c1 sz' v0')) =
       (constants c1)(i := (constants c1 i)\<lparr>use_count := use_count (constants c1 i) + 1\<rparr>)"
    "fst (orc_compiler_get_constant c1 sz' v0') =
       (if alloc_reg (constants c1 i) \<noteq> 0 then alloc_reg (constants c1 i) else tmpreg c1)"
    using get_constant_entry [of sz' v0' c1] l by (simp_all add: Let_def K' f)
  show "n_constants (snd (orc_compiler_get_constant c1 sz' v0')) = n_constants c1" by fact
  show "constants (snd (orc_compiler_get_constant c1 sz' v0')) =
       (constants c1)(i := e\<lparr>use_count := use_count e + 1\<rparr>)"
    using h(2) g(2) by simp
  show "fst (orc_compiler_get_constant c1 sz' v0') = fst (orc_compiler_get_constant c sz v0)"
    using h(3) g(2,3,4) by simp
qed

text \<open>
  C8. For every value \<open>v\<close> (in particular every 8-bit one) and every compiler state, a
  request of size 1 for \<open>v\<close> and a request of size 4 for \<open>splat8 v\<close> are both looked
  up under the canonical value \<open>splat8 v\<close>. Let \<open>i\<close> be where the search for it ends:
  the first pool index holding \<open>splat8 v\<close>, or \<open>n_constants\<close> when no entry does. Either
  request leaves the pool with entry \<open>i\<close> inside it and holding \<open>splat8 v\<close>: an entry
  found has its use count incremented, an entry appended starts with no register and
  use count 1, and no other entry changes. The register returned is that of the entry,
  or the scratch register when it has none. A second request, of either form, made
  after the first ends its search at the same index \<open>i\<close>, leaves the size of the pool
  as it is, increments the use count of entry \<open>i\<close> once more and returns the same
  register. Made from the same state, the two requests return the same register and
  leave the same pool.
\<close>

theorem get_constant_splat8_same_entry:
  "canonical_constant 1 v = canonical_constant 4 (splat8 v) \<and>
   constant_search c (canonical_constant 1 v) 0 =
     constant_search c (canonical_constant 4 (splat8 v)) 0 \<and>
   fst (orc_compiler_get_constant c 1 v) = fst (orc_compiler_get_constant c 4 (splat8 v)) \<and>
   constants (snd (orc_compiler_get_constant c 1 v)) =
     constants (snd (orc_compiler_get_constant c 4 (splat8 v))) \<and>
   n_constants (snd (orc_compiler_get_constant c 1 v)) =
     n_constants (snd (orc_compiler_get_constant c 4 (splat8 v))) \<and>
   (let K = splat8 v;
        i = constant_search c K 0;
        e = (if i = n_constants c then \<lparr>cvalue = K, alloc_reg = 0, use_count = 1\<rparr>
             else (constants c i)\<lparr>use_count := use_count (constants c i) + 1\<rparr>);
        c1 = snd (orc_compiler_get_constant c 1 v);
        c4 = snd (orc_compiler_get_constant c 4 (splat8 v))
    in canonical_constant 1 v = K \<and> canonical_constant 4 (splat8 v) = K \<and>
       i \<le> n_constants c \<and> (\<forall>k<i. cvalue (constants c k) \<noteq> K) \<and> cvalue e = K \<and>
       n_constants c1 = (if i = n_constants c then n_constants c + 1 else n_constants c) \<and>
       i < n_constants c1 \<and>
       constants c1 = (constants c)(i := e) \<and>
       fst (orc_compiler_get_constant c 1 v) =
         (if alloc_reg e \<noteq> 0 then alloc_reg e else tmpreg c) \<and>
       constant_search c1 K 0 = i \<and>
       n_constants (snd (orc_compiler_get_constant c1 4 (splat8 v))) = n_constants c1 \<and>
       constants (snd (orc_compiler_get_constant c1 4 (splat8 v))) =
         (constants c1)(i := e\<lparr>use_count := use_count e + 1\<rparr>) \<and>
       fst (orc_compiler_get_constant c1 4 (splat8 v)) = fst (orc_compiler_get_constant c 1 v) \<and>
       constant_search c4 K 0 = i \<and>
       n_constants (snd (orc_compiler_get_constant c4 1 v)) = n_constants c4 \<and>
       constants (snd (orc_compiler_get_constant c4 1 v)) =
         (constants c4)(i := e\<lparr>use_count := use_count e + 1\<rparr>) \<and>
       fst (orc_compiler_get_constant c4 1 v) = fst (orc_compiler_get_constant c 4 (splat8 v)))"
proof -
  have k1: "canonical_constant 1 v = splat8 v"
    by (rule canonical_constant_byte)
  have k4: "canonical_constant 4 (splat8 v) = splat8 v"
    by (rule canonical_constant_word)
  have eq: "canonical_constant 1 v = canonical_constant 4 (splat8 v)"
    by (simp only: k1 k4)
  note a = get_constant_again [OF k1 k4, of c]
  note b = get_constant_again [OF k4 k1, of c]
  from eq get_constant_canonical [OF eq, of c]
  have same: "canonical_constant 1 v = canonical_constant 4 (splat8 v) \<and>
      constant_search c (canonical_constant 1 v) 0 =
        constant_search c (canonical_constant 4 (splat8 v)) 0 \<and>
      fst (orc_compiler_get_constant c 1 v) = fst (orc_compiler_get_constant c 4 (splat8 v)) \<and>
      constants (snd (orc_compiler_get_constant c 1 v)) =
        constants (snd (orc_compiler_get_constant c 4 (splat8 v))) \<and>
      n_constants (snd (orc_compiler_get_constant c 1 v)) =
        n_constants (snd (orc_compiler_get_constant c 4 (splat8 v)))"
    by simp
  show ?thesis
    unfolding Let_def
    by (intro conjI same [THEN conjunct1] same [THEN conjunct2, THEN conjunct1]
        same [THEN conjunct2, THEN conjunct2, THEN conjunct1]
        same [THEN conjunct2, THEN conjunct2, THEN conjunct2, THEN conjunct1]
        same [THEN conjunct2, THEN conjunct2, THEN conjunct2, THEN conjunct2]
        k1 k4 a b(8-11))
qed

theorem get_constant_splat8_same_entry_witness:
  "splat8 0x17f = 0x7f7f7f7f \<and>
   constant_search example_constants (splat8 0x17f) 0 = 1 \<and>
   cvalue (constants example_constants 0) \<noteq> splat8 0x17f \<and>
   fst (orc_compiler_get_constant example_constants 1 0x17f) = 66 \<and>
   fst (orc_compiler_get_constant
          (snd (orc_compiler_get_constant example_constants 1 0x17f)) 4 (splat8 0x17f)) = 66 \<and>
   n_constants (snd (orc_compiler_get_constant
          (snd (orc_compiler_get_constant example_constants 1 0x17f)) 4 (splat8 0x17f))) = 2 \<and>
   constants (snd (orc_compiler_get_constant
          (snd (orc_compiler_get_constant example_constants 1 0x17f)) 4 (splat8 0x17f))) 1 =
     \<lparr>cvalue = 0x7f7f7f7f, alloc_reg = 66, use_count = 3\<rparr> \<and>
   constant_search (zero_compiler\<lparr>tmpreg := 70\<rparr>) (splat8 0x17f) 0 = 0 \<and>
   fst (orc_compiler_get_constant (zero_compiler\<lparr>tmpreg := 70\<rparr>) 1 0x17f) = 70 \<and>
   n_constants (snd (orc_compiler_get_constant
          (snd (orc_compiler_get_constant (zero_compiler\<lparr>tmpreg := 70\<rparr>) 1 0x17f))
          4 (splat8 0x17f))) = 1 \<and>
   constants (snd (orc_compiler_get_constant
          (snd (orc_compiler_get_constant (zero_compiler\<lparr>tmpreg := 70\<rparr>) 1 0x17f))
          4 (splat8 0x17f))) 0 =
     \<lparr>cvalue = 0x7f7f7f7f, alloc_reg = 0, use_count = 2\<rparr>"
proof -
  have k: "splat8 0x17f = 0x7f7f7f7f"
    by (simp add: splat8_def)
  have s: "constant_search example_constants 0x7f7f7f7f 0 = 1"
    by (simp add: constant_search.simps [of _ _ 0] constant_search.simps [of _ _ "Suc 0"]
        example_constants_def zero_compiler_def)
  have z: "constant_search (zero_compiler\<lparr>tmpreg := 70\<rparr>) 0x7f7f7f7f 0 = 0"
    by (simp add: constant_search.simps [of _ _ 0] zero_compiler_def)
  have f: "n_constants example_constants = 2" "tmpreg example_constants = 70"
    "constants example_constants 0 = \<lparr>cvalue = 5, alloc_reg = 0, use_count = 3\<rparr>"
    "constants example_constants 1 = \<lparr>cvalue = 0x7f7f7f7f, alloc_reg = 66, use_count = 1\<rparr>"
    "constants example_constants (Suc 0) =
       \<lparr>cvalue = 0x7f7f7f7f, alloc_reg = 66, use_count = 1\<rparr>"
    by (simp_all add: example_constants_def zero_compiler_def)
  have g: "n_constants (zero_compiler\<lparr>tmpreg := 70\<rparr>) = 0"
    "tmpreg (zero_compiler\<lparr>tmpreg := 70\<rparr>) = 70"
    by (simp_all add: zero_compiler_def)
  from get_constant_splat8_same_entry [of "0x17f" example_constants]
  have a: "fst (orc_compiler_get_constant example_constants 1 0x17f) = 66 \<and>
   fst (orc_compiler_get_constant
          (snd (orc_compiler_get_constant example_constants 1 0x17f)) 4 (splat8 0x17f)) = 66 \<and>
   n_constants (snd (orc_compiler_get_constant
          (snd (orc_compiler_get_constant example_constants 1 0x17f)) 4 (splat8 0x17f))) = 2 \<and>
   constants (snd (orc_compiler_get_constant
          (snd (orc_compiler_get_constant example_constants 1 0x17f)) 4 (splat8 0x17f))) 1 =
     \<lparr>cvalue = 0x7f7f7f7f, alloc_reg = 66, use_count = 3\<rparr>"
    unfolding Let_def k s by (simp add: f)
  from get_constant_splat8_same_entry [of "0x17f" "zero_compiler\<lparr>tmpreg := 70\<rparr>"]
  have b: "fst (orc_compiler_get_constant (zero_compiler\<lparr>tmpreg := 70\<rparr>) 1 0x17f) = 70 \<and>
   n_constants (snd (orc_compiler_get_constant
          (snd (orc_compiler_get_constant (zero_compiler\<lparr>tmpreg := 70\<rparr>) 1 0x17f))
          4 (splat8 0x17f))) = 1 \<and>
   constants (snd (orc_compiler_get_constant
          (snd (orc_compiler_get_constant (zero_compiler\<lparr>tmpreg := 70\<rparr>) 1 0x17f))
          4 (splat8 0x17f))) 0 =
     \<lparr>cvalue = 0x7f7f7f7f, alloc_reg = 0, use_count = 2\<rparr>"
    unfolding Let_def k z by (simp add: g)
  show ?thesis
    using a b by (simp add: k s z f)
qed

section \<open>Properties of the driver\<close>

lemma valid_regs_marked:
  "valid_regs (foldl (\<lambda>c i. c\<lparr>valid_regs := (valid_regs c)(i := 1)\<rparr>) c [0..<n]) r =
     (if r < n then 1 else valid_regs c r)"
  by (induction n) auto

lemma compile_full_setup_valid:
  assumes "compile_full_setup flag_backup program target = Inr c"
  shows "valid_regs c r = (if r < 32 then 1 else 0)"
proof -
  from assms obtain t where t: "target = Some t"
    by (auto simp: compile_full_setup_def Let_def split: if_splits option.splits)
  from assms show ?thesis
    unfolding t compile_full_setup_def Let_def
    by (auto simp: valid_regs_marked zero_compiler_def split: if_splits)
qed

text \<open>
  C5, as stated, fails: when the backend's \<open>compiler_init\<close> is about to be called, the
  first register of the general-purpose pool (number 32) is not marked valid.
\<close>

theorem compile_setup_pool_not_valid:
  "\<not> isl (compile_full_setup False example_program (Some example_target)) \<and>
   valid_regs (projr (compile_full_setup False example_program (Some example_target)))
     ORC_GP_REG_BASE = 0 \<and>
   valid_regs (projr (compile_full_setup False example_program (Some example_target)))
     ORC_VEC_REG_BASE = 0"
proof -
  obtain c where c: "compile_full_setup False example_program (Some example_target) = Inr c"
    by (simp add: compile_full_setup_def example_program_def Let_def)
  show ?thesis
    unfolding c using compile_full_setup_valid [OF c]
    by (simp add: ORC_GP_REG_BASE_def ORC_VEC_REG_BASE_def)
qed

text \<open>
  C5, amended. Whenever the driver reaches the call of the backend's \<open>compiler_init\<close>,
  it has marked exactly the register numbers 0..31 valid; every other register, among
  them the whole general-purpose pool 32..63, still has \<open>valid_regs = 0\<close>, so the
  registers of the pools are usable only once \<open>compiler_init\<close> enables them.
\<close>

theorem compile_setup_marks_first_32:
  "compile_full_setup flag_backup program target = Inr c \<Longrightarrow>
   valid_regs c r = (if r < 32 then 1 else 0)"
  by (rule compile_full_setup_valid)

theorem compile_setup_marks_first_32_witness:
  "compile_full_setup False example_program (Some example_target) =
     Inr (projr (compile_full_setup False example_program (Some example_target))) \<and>
   valid_regs (projr (compile_full_setup False example_program (Some example_target))) 31 = 1 \<and>
   valid_regs (projr (compile_full_setup False example_program (Some example_target))) 32 = 0"
proof -
  obtain c where c: "compile_full_setup False example_program (Some example_target) = Inr c"
    by (simp add: compile_full_setup_def example_program_def Let_def)
  show ?thesis
    unfolding c
    using compile_setup_marks_first_32 [OF c, of 31] compile_setup_marks_first_32 [OF c, of 32]
    by simp
qed

section \<open>Range of the allocated registers\<close>

lemma allocate_register_result:
  "(fst (orc_compiler_allocate_register c d) = 0 \<and>
    snd (orc_compiler_allocate_register c d) = register_overflow c d \<and>
    (\<forall>i<32. \<not> reg_free c (pool_offset c d + i))) \<or>
   (pool_offset c d \<le> fst (orc_compiler_allocate_register c d) \<and>
    fst (orc_compiler_allocate_register c d) < pool_offset c d + 32 \<and>
    reg_free c (fst (orc_compiler_allocate_register c d)) \<and>
    snd (orc_compiler_allocate_register c d) =
      take_register c (fst (orc_compiler_allocate_register c d)))"
proof (cases c d rule: allocate_cases)
  case (taken i)
  then show ?thesis by simp
next
  case overflow
  then show ?thesis by simp
qed

text \<open>
  C10, as stated, fails: the vector pool starts at the target's \<open>data_register_offset\<close>,
  which nothing bounds from below. With offset 0 and the registers 0..31 valid, a call
  succeeds (no error is latched, the refcount of the register is raised) and returns
  register 0, below 32; a second call returns register 1, the inline-immediate mark.
\<close>

theorem allocate_register_below_base:
  "fst (orc_compiler_allocate_register example_low_pool True) = 0 \<and>
   \<not> error (snd (orc_compiler_allocate_register example_low_pool True)) \<and>
   alloc_regs (snd (orc_compiler_allocate_register example_low_pool True)) 0 = 1 \<and>
   fst (orc_compiler_allocate_register
         (snd (orc_compiler_allocate_register example_low_pool True)) True) = 1 \<and>
   \<not> error (snd (orc_compiler_allocate_register
         (snd (orc_compiler_allocate_register example_low_pool True)) True))"
proof -
  have a: "orc_compiler_allocate_register example_low_pool True =
      (0, take_register example_low_pool 0)"
    using allocate_preferred [of 0 example_low_pool True]
    by (simp add: example_low_pool_def zero_compiler_def pool_offset_def reg_preferred_def)
  have b: "orc_compiler_allocate_register (take_register example_low_pool 0) True =
      (1, take_register (take_register example_low_pool 0) 1)"
    using allocate_preferred [of 1 "take_register example_low_pool 0" True]
    by (simp add: example_low_pool_def zero_compiler_def pool_offset_def reg_preferred_def
        take_register_def)
  have c: "\<not> error (take_register (take_register example_low_pool 0) 1) \<and>
      \<not> error (take_register example_low_pool 0) \<and>
      alloc_regs (take_register example_low_pool 0) 0 = 1"
    by (simp add: example_low_pool_def zero_compiler_def take_register_def)
  show ?thesis
    by (simp only: a b c fst_conv snd_conv simp_thms)
qed

text \<open>
  C10, amended. For the general-purpose pool, and for the vector pool provided the
  target's \<open>data_register_offset\<close> is at least \<open>ORC_GP_REG_BASE\<close> (32), a call
  either fails, returning 0 with the error latched and
  the result \<open>UNKNOWN_COMPILE\<close> and no register free in the window, or succeeds,
  returning a register of the pool's window that was valid and unallocated and whose
  number is at least 32. So 0 is returned only on failure and the mark 1 is never a
  register the allocator returned.
\<close>

theorem allocate_register_at_least_base:
  assumes "d \<longrightarrow> ORC_GP_REG_BASE \<le> data_register_offset c"
  shows "(fst (orc_compiler_allocate_register c d) = 0 \<and>
          error (snd (orc_compiler_allocate_register c d)) \<and>
          result (snd (orc_compiler_allocate_register c d)) = ORC_COMPILE_RESULT_UNKNOWN_COMPILE \<and>
          alloc_regs (snd (orc_compiler_allocate_register c d)) = alloc_regs c \<and>
          (\<forall>i<32. \<not> reg_free c (pool_offset c d + i))) \<or>
         (ORC_GP_REG_BASE \<le> fst (orc_compiler_allocate_register c d) \<and>
          fst (orc_compiler_allocate_register c d) \<noteq> 1 \<and>
          fst (orc_compiler_allocate_register c d) \<noteq> 0 \<and>
          pool_offset c d \<le> fst (orc_compiler_allocate_register c d) \<and>
          fst (orc_compiler_allocate_register c d) < pool_offset c d + 32 \<and>
          reg_free c (fst (orc_compiler_allocate_register c d)) \<and>
          error (snd (orc_compiler_allocate_register c d)) = error c \<and>
          snd (orc_compiler_allocate_register c d) =
            take_register c (fst (orc_compiler_allocate_register c d)))"
proof -
  have base: "ORC_GP_REG_BASE \<le> pool_offset c d"
    using assms by (simp add: pool_offset_def)
  from allocate_register_result [of c d] show ?thesis
  proof
    assume "fst (orc_compiler_allocate_register c d) = 0 \<and>
      snd (orc_compiler_allocate_register c d) = register_overflow c d \<and>
      (\<forall>i<32. \<not> reg_free c (pool_offset c d + i))"
    then show ?thesis by (simp add: register_overflow_def)
  next
    assume "pool_offset c d \<le> fst (orc_compiler_allocate_register c d) \<and>
      fst (orc_compiler_allocate_register c d) < pool_offset c d + 32 \<and>
      reg_free c (fst (orc_compiler_allocate_register c d)) \<and>
      snd (orc_compiler_allocate_register c d) =
        take_register c (fst (orc_compiler_allocate_register c d))"
    with base show ?thesis
      by (auto simp: ORC_GP_REG_BASE_def take_register_def)
  qed
qed

theorem allocate_register_at_least_base_witness:
  "ORC_GP_REG_BASE \<le> data_register_offset (example_pool\<lparr>data_register_offset := 64\<rparr>) \<and>
   ORC_GP_REG_BASE \<le> fst (orc_compiler_allocate_register example_pool False) \<and>
   fst (orc_compiler_allocate_register (example_pool\<lparr>data_register_offset := 64\<rparr>) False) = 33 \<and>
   fst (orc_compiler_allocate_register (example_pool\<lparr>data_register_offset := 64\<rparr>) True) = 0 \<and>
   error (snd (orc_compiler_allocate_register (example_pool\<lparr>data_register_offset := 64\<rparr>) True))"
proof -
  let ?c = "example_pool\<lparr>data_register_offset := 64\<rparr>"
  have h: "ORC_GP_REG_BASE \<le> data_register_offset ?c"
    by (simp add: ORC_GP_REG_BASE_def)
  have h': "True \<longrightarrow> ORC_GP_REG_BASE \<le> data_register_offset ?c"
    using h by simp
  have g: "fst (orc_compiler_allocate_register example_pool False) = 33"
    using allocate_preferred [of 1 example_pool False]
    by (simp add: example_pool_def zero_compiler_def pool_offset_def ORC_GP_REG_BASE_def
        reg_preferred_def)
  have g': "ORC_GP_REG_BASE \<le> fst (orc_compiler_allocate_register example_pool False)"
    using allocate_register_at_least_base [of False example_pool] g by simp
  have a: "fst (orc_compiler_allocate_register ?c False) = 33"
    using allocate_preferred [of 1 ?c False]
    by (simp add: example_pool_def zero_compiler_def pool_offset_def ORC_GP_REG_BASE_def
        reg_preferred_def)
  have nf: "\<forall>i<32. \<not> reg_free ?c (pool_offset ?c True + i)"
    by (simp add: example_pool_def zero_compiler_def pool_offset_def reg_free_def)
  have b: "fst (orc_compiler_allocate_register ?c True) = 0"
    using allocate_overflow [OF nf] by simp
  have e: "error (snd (orc_compiler_allocate_register ?c True))"
    using allocate_overflow [OF nf] by (simp add: register_overflow_def)
  show ?thesis
    using allocate_register_at_least_base [OF h'] h a b e g' by simp
qed

section \<open>Properties of the global allocator\<close>

lemma loop_counter_exhausted:
  assumes "alloc_loop_counter c" "\<not> error c"
    "\<forall>i<32. \<not> reg_free c (ORC_GP_REG_BASE + i)"
  shows "global_reg_alloc_loop_counter c =
           (register_overflow c False)
             \<lparr>loop_counter := 0, error := False, result := ORC_COMPILE_RESULT_OK\<rparr>"
  using assms allocate_overflow [of c False]
  by (simp add: global_reg_alloc_loop_counter_def pool_offset_def)

lemma loop_counter_taken:
  assumes "alloc_loop_counter c" "\<not> error c"
    "\<exists>i<32. reg_free c (ORC_GP_REG_BASE + i)"
  shows "ORC_GP_REG_BASE \<le> fst (orc_compiler_allocate_register c False) \<and>
         fst (orc_compiler_allocate_register c False) < ORC_GP_REG_BASE + 32 \<and>
         reg_free c (fst (orc_compiler_allocate_register c False)) \<and>
         global_reg_alloc_loop_counter c =
           (take_register c (fst (orc_compiler_allocate_register c False)))
             \<lparr>loop_counter := fst (orc_compiler_allocate_register c False)\<rparr>"
proof -
  from allocate_register_result [of c False] assms(3)
  have r: "ORC_GP_REG_BASE \<le> fst (orc_compiler_allocate_register c False) \<and>
      fst (orc_compiler_allocate_register c False) < ORC_GP_REG_BASE + 32 \<and>
      reg_free c (fst (orc_compiler_allocate_register c False)) \<and>
      snd (orc_compiler_allocate_register c False) =
        take_register c (fst (orc_compiler_allocate_register c False))"
    by (auto simp: pool_offset_def)
  then have nz: "fst (orc_compiler_allocate_register c False) \<noteq> 0"
    by (simp add: ORC_GP_REG_BASE_def)
  from r nz assms(1,2) show ?thesis
    by (simp add: global_reg_alloc_loop_counter_def split_beta)
qed

text \<open>
  C6. Let \<open>c'\<close> be the context after the loop over the variable table. If the backend
  requested a loop counter and no error is latched in \<open>c'\<close>, the global allocator
  stores in \<open>loop_counter\<close> what one allocation from the general-purpose pool returns.
  If the pool has a free register, that register (in 32..63) is taken: its refcount is
  raised and the result code stays as it was. If the pool is exhausted,
  \<open>loop_counter\<close> is 0 and the result is forced to \<open>OK\<close>. In both cases the error
  flag is clear afterwards: exhaustion on the loop counter alone does not fail the
  compilation.
\<close>

theorem global_reg_alloc_loop_counter_forgiven:
  assumes "c' = global_reg_alloc_vars c [0..<ORC_N_VARIABLES]"
    and "alloc_loop_counter c'" and "\<not> error c'"
  shows "\<not> error (orc_compiler_global_reg_alloc c) \<and>
         loop_counter (orc_compiler_global_reg_alloc c) =
           fst (orc_compiler_allocate_register c' False) \<and>
         ((\<forall>i<32. \<not> reg_free c' (ORC_GP_REG_BASE + i)) \<longrightarrow>
            loop_counter (orc_compiler_global_reg_alloc c) = 0 \<and>
            result (orc_compiler_global_reg_alloc c) = ORC_COMPILE_RESULT_OK) \<and>
         ((\<exists>i<32. reg_free c' (ORC_GP_REG_BASE + i)) \<longrightarrow>
            ORC_GP_REG_BASE \<le> loop_counter (orc_compiler_global_reg_alloc c) \<and>
            loop_counter (orc_compiler_global_reg_alloc c) < ORC_GP_REG_BASE + 32 \<and>
            reg_free c' (loop_counter (orc_compiler_global_reg_alloc c)) \<and>
            alloc_regs (orc_compiler_global_reg_alloc c)
              (loop_counter (orc_compiler_global_reg_alloc c)) = 1 \<and>
            result (orc_compiler_global_reg_alloc c) = result c')"
proof (cases "\<exists>i<32. reg_free c' (ORC_GP_REG_BASE + i)")
  case True
  have g: "orc_compiler_global_reg_alloc c = global_reg_alloc_loop_counter c'"
    by (simp add: orc_compiler_global_reg_alloc_def assms(1))
  have ne: "\<not> (\<forall>i<32. \<not> reg_free c' (ORC_GP_REG_BASE + i))"
    using True by blast
  note t = loop_counter_taken [OF assms(2,3) True]
  from t have z: "alloc_regs c' (fst (orc_compiler_allocate_register c' False)) = 0"
    by (simp add: reg_free_def)
  from t z assms(3) have main: "\<not> error (global_reg_alloc_loop_counter c') \<and>
      loop_counter (global_reg_alloc_loop_counter c') =
        fst (orc_compiler_allocate_register c' False) \<and>
      alloc_regs (global_reg_alloc_loop_counter c')
        (fst (orc_compiler_allocate_register c' False)) = 1 \<and>
      result (global_reg_alloc_loop_counter c') = result c'"
    by (simp add: take_register_def)
  from main t ne show ?thesis
    unfolding g by auto
next
  case False
  then have nf: "\<forall>i<32. \<not> reg_free c' (ORC_GP_REG_BASE + i)" by blast
  have g: "orc_compiler_global_reg_alloc c = global_reg_alloc_loop_counter c'"
    by (simp add: orc_compiler_global_reg_alloc_def assms(1))
  have z: "fst (orc_compiler_allocate_register c' False) = 0"
    using allocate_overflow [of c' False] nf by (simp add: pool_offset_def)
  from loop_counter_exhausted [OF assms(2,3) nf]
  have main: "\<not> error (global_reg_alloc_loop_counter c') \<and>
      loop_counter (global_reg_alloc_loop_counter c') = 0 \<and>
      result (global_reg_alloc_loop_counter c') = ORC_COMPILE_RESULT_OK"
    by (simp add: register_overflow_def)
  from main z False show ?thesis
    unfolding g by auto
qed

lemma global_reg_alloc_vars_unnamed:
  "\<forall>i\<in>set is. name (vars c i) = None \<Longrightarrow> global_reg_alloc_vars c is = c"
  by (induction "is") auto

theorem global_reg_alloc_loop_counter_forgiven_witness:
  "alloc_loop_counter example_loop_counter_exhausted \<and>
   \<not> error example_loop_counter_exhausted \<and>
   \<not> error (orc_compiler_global_reg_alloc example_loop_counter_exhausted) \<and>
   loop_counter (orc_compiler_global_reg_alloc example_loop_counter_exhausted) = 0 \<and>
   result (orc_compiler_global_reg_alloc example_loop_counter_exhausted) = ORC_COMPILE_RESULT_OK \<and>
   alloc_loop_counter example_loop_counter \<and>
   \<not> error example_loop_counter \<and>
   \<not> error (orc_compiler_global_reg_alloc example_loop_counter) \<and>
   loop_counter (orc_compiler_global_reg_alloc example_loop_counter) = 33"
proof -
  have u1: "global_reg_alloc_vars example_loop_counter_exhausted [0..<ORC_N_VARIABLES] =
      example_loop_counter_exhausted"
    by (rule global_reg_alloc_vars_unnamed)
      (simp add: example_loop_counter_exhausted_def zero_compiler_def zero_variable_def)
  have u2: "global_reg_alloc_vars example_loop_counter [0..<ORC_N_VARIABLES] =
      example_loop_counter"
    by (rule global_reg_alloc_vars_unnamed)
      (simp add: example_loop_counter_def example_pool_def zero_compiler_def zero_variable_def)
  have h1: "alloc_loop_counter example_loop_counter_exhausted \<and>
      \<not> error example_loop_counter_exhausted"
    by (simp add: example_loop_counter_exhausted_def zero_compiler_def)
  have h2: "alloc_loop_counter example_loop_counter \<and> \<not> error example_loop_counter"
    by (simp add: example_loop_counter_def example_pool_def zero_compiler_def)
  have nf: "\<forall>i<32. \<not> reg_free example_loop_counter_exhausted (ORC_GP_REG_BASE + i)"
    by (simp add: example_loop_counter_exhausted_def zero_compiler_def reg_free_def)
  have a: "fst (orc_compiler_allocate_register example_loop_counter False) = 33"
    using allocate_preferred [of 1 example_loop_counter False]
    by (simp add: example_loop_counter_def example_pool_def zero_compiler_def pool_offset_def
        ORC_GP_REG_BASE_def reg_preferred_def)
  from global_reg_alloc_loop_counter_forgiven
         [OF u1 [symmetric] conjunct1 [OF h1] conjunct2 [OF h1]] nf
  have w1: "\<not> error (orc_compiler_global_reg_alloc example_loop_counter_exhausted) \<and>
      loop_counter (orc_compiler_global_reg_alloc example_loop_counter_exhausted) = 0 \<and>
      result (orc_compiler_global_reg_alloc example_loop_counter_exhausted) =
        ORC_COMPILE_RESULT_OK"
    by blast
  from global_reg_alloc_loop_counter_forgiven
         [OF u2 [symmetric] conjunct1 [OF h2] conjunct2 [OF h2]] a
  have w2: "\<not> error (orc_compiler_global_reg_alloc example_loop_counter) \<and>
      loop_counter (orc_compiler_global_reg_alloc example_loop_counter) = 33"
    by simp
  from h1 h2 w1 w2 show ?thesis by simp
qed

section \<open>Properties of the validator\<close>

lemma check_sizes_dest_None:
  "check_sizes_dest c insn js = None \<longleftrightarrow> (\<forall>j\<in>set js. \<not> dest_violation c insn j)"
  by (induction js) (auto simp: dest_violation_def)

lemma check_sizes_dest_Some:
  "check_sizes_dest c insn js = Some c' \<Longrightarrow> \<exists>msg. c' = parse_error msg c"
  by (induction js) (auto split: if_splits)

lemma check_sizes_src_None:
  "check_sizes_src c insn js = None \<longleftrightarrow> (\<forall>j\<in>set js. \<not> src_violation c insn j)"
  by (induction js) (auto simp: src_violation_def)

lemma check_sizes_src_Some:
  "check_sizes_src c insn js = Some c' \<Longrightarrow> \<exists>msg. c' = parse_error msg c"
  by (induction js) (auto split: if_splits)

lemma check_sizes_insn_None:
  "check_sizes_dest c insn [0..<ORC_STATIC_OPCODE_N_DEST] = None \<and>
   check_sizes_src c insn [0..<ORC_STATIC_OPCODE_N_SRC] = None \<longleftrightarrow>
   \<not> insn_violation c insn"
  unfolding check_sizes_dest_None check_sizes_src_None insn_violation_def by auto

lemma check_sizes_insns_None:
  "check_sizes_insns c is = None \<longleftrightarrow> (\<forall>i\<in>set is. \<not> insn_violation c (insns c ! i))"
proof (induction "is")
  case Nil
  show ?case by simp
next
  case (Cons i "is")
  show ?case
  proof (cases "insn_violation c (insns c ! i)")
    case True
    with check_sizes_insn_None [of c "insns c ! i"] show ?thesis
      by (auto split: option.splits)
  next
    case False
    with check_sizes_insn_None [of c "insns c ! i"] Cons show ?thesis
      by simp
  qed
qed

lemma check_sizes_insns_Some:
  "check_sizes_insns c is = Some c' \<Longrightarrow> \<exists>msg. c' = parse_error msg c"
  by (induction "is")
    (auto split: option.splits dest: check_sizes_dest_Some check_sizes_src_Some)

lemma check_sizes_cases:
  "(has_violation c \<longrightarrow> (\<exists>msg. orc_compiler_check_sizes c = parse_error msg c)) \<and>
   (\<not> has_violation c \<longrightarrow> orc_compiler_check_sizes c = c)"
proof (cases "check_sizes_insns c [0..<n_insns c]")
  case None
  then have "\<not> has_violation c"
    by (simp add: check_sizes_insns_None has_violation_def)
  with None show ?thesis by (simp add: orc_compiler_check_sizes_def)
next
  case (Some c')
  then have "check_sizes_insns c [0..<n_insns c] \<noteq> None" by simp
  then have v: "has_violation c"
    by (auto simp: check_sizes_insns_None has_violation_def)
  from check_sizes_insns_Some [OF Some] obtain msg where "c' = parse_error msg c" ..
  with Some v show ?thesis by (auto simp: orc_compiler_check_sizes_def)
qed

lemma slot_index_cases:
  "j < ORC_STATIC_OPCODE_N_DEST \<longleftrightarrow> j = 0 \<or> j = 1"
  "j < ORC_STATIC_OPCODE_N_SRC \<longleftrightarrow> j = 0 \<or> j = 1 \<or> j = 2 \<or> j = 3"
  by (auto simp: ORC_STATIC_OPCODE_N_DEST_def ORC_STATIC_OPCODE_N_SRC_def)

lemmas example_simps =
  example_context_def example_vars_def example_var_def example_insn_def example_opcode_def
  zero_compiler_def zero_variable_def copyw_def addw_def shlw_def n_insns_def
  ORC_VAR_D1_def ORC_VAR_S1_def ORC_VAR_S2_def ORC_VAR_C1_def ORC_VAR_P1_def ORC_VAR_T1_def

lemma example_scalar_ok: "\<not> has_violation example_scalar"
  by (simp add: has_violation_def insn_violation_def dest_violation_def src_violation_def
      slot_index_cases example_scalar_def example_simps)

lemma example_scalar_src_violation: "has_violation example_scalar_src"
proof -
  have "src_violation example_scalar_src (insns example_scalar_src ! 0) 1"
    by (simp add: src_violation_def example_scalar_src_def example_simps)
  then have "insn_violation example_scalar_src (insns example_scalar_src ! 0)"
    unfolding insn_violation_def slot_index_cases by blast
  moreover have "0 < n_insns example_scalar_src"
    by (simp add: example_scalar_src_def example_simps)
  ultimately show ?thesis unfolding has_violation_def by blast
qed

text \<open>
  C2. The validator looks at the slots with non-zero declared size only. A violation
  is: a destination slot with non-zero declared size whose variable's size differs
  from the declared size; a source slot with non-zero declared size whose variable's
  size differs from the declared size and whose kind is neither \<open>Const\<close> nor
  \<open>Param\<close>; or, for a scalar opcode, a source slot with non-zero declared size and
  index at least 1 whose variable is neither \<open>Const\<close> nor \<open>Param\<close>. If some
  instruction has a violation, the validator returns with the error flag set, the
  result \<open>UNKNOWN_PARSE\<close> and exactly one diagnostic added, everything else unchanged.
  If no instruction has one, the validator leaves the context, and so the error flag
  and the result, unchanged.
\<close>

theorem check_sizes_violation:
  "(has_violation c \<longrightarrow>
      (\<exists>msg. orc_compiler_check_sizes c =
         c\<lparr>error := True, messages := messages c @ [msg],
           result := ORC_COMPILE_RESULT_UNKNOWN_PARSE\<rparr>)) \<and>
   (\<not> has_violation c \<longrightarrow> orc_compiler_check_sizes c = c)"
  using check_sizes_cases [of c] by (simp add: parse_error_def ORC_COMPILER_ERROR_def)

theorem check_sizes_violation_witness:
  "has_violation example_scalar_src \<and>
   result (orc_compiler_check_sizes example_scalar_src) = ORC_COMPILE_RESULT_UNKNOWN_PARSE \<and>
   error (orc_compiler_check_sizes example_scalar_src) \<and>
   length (messages (orc_compiler_check_sizes example_scalar_src)) = 1 \<and>
   \<not> has_violation example_scalar \<and>
   orc_compiler_check_sizes example_scalar = example_scalar"
proof -
  from check_sizes_violation [of example_scalar_src] example_scalar_src_violation
  obtain msg where "orc_compiler_check_sizes example_scalar_src =
      example_scalar_src\<lparr>error := True, messages := messages example_scalar_src @ [msg],
        result := ORC_COMPILE_RESULT_UNKNOWN_PARSE\<rparr>"
    by blast
  then have a: "result (orc_compiler_check_sizes example_scalar_src) =
        ORC_COMPILE_RESULT_UNKNOWN_PARSE \<and>
      error (orc_compiler_check_sizes example_scalar_src) \<and>
      length (messages (orc_compiler_check_sizes example_scalar_src)) = 1"
    by (simp add: example_scalar_src_def example_simps)
  from check_sizes_violation [of example_scalar] example_scalar_ok
  have b: "orc_compiler_check_sizes example_scalar = example_scalar" by blast
  from a b example_scalar_src_violation example_scalar_ok show ?thesis by simp
qed

section \<open>Properties of the renaming pass\<close>

lemma var_update_vars [simp]:
  "vars (var_update v f c) w = (if w = v then f (vars c v) else vars c w)"
  by (simp add: var_update_def)

lemma var_update_fields [simp]:
  "insns (var_update v f c) = insns c"
  "n_temp_vars (var_update v f c) = n_temp_vars c"
  "n_dup_vars (var_update v f c) = n_dup_vars c"
  "error (var_update v f c) = error c"
  "result (var_update v f c) = result c"
  "messages (var_update v f c) = messages c"
  "valid_regs (var_update v f c) = valid_regs c"
  "save_regs (var_update v f c) = save_regs c"
  "used_regs (var_update v f c) = used_regs c"
  "alloc_regs (var_update v f c) = alloc_regs c"
  "data_register_offset (var_update v f c) = data_register_offset c"
  "n_insns (var_update v f c) = n_insns c"
  by (simp_all add: var_update_def n_insns_def)

lemma parse_error_fields [simp]:
  "insns (parse_error msg c) = insns c"
  "vars (parse_error msg c) = vars c"
  "n_temp_vars (parse_error msg c) = n_temp_vars c"
  "n_dup_vars (parse_error msg c) = n_dup_vars c"
  "error (parse_error msg c) = True"
  "result (parse_error msg c) = ORC_COMPILE_RESULT_UNKNOWN_PARSE"
  "alloc_regs (parse_error msg c) = alloc_regs c"
  "n_insns (parse_error msg c) = n_insns c"
  by (simp_all add: parse_error_def ORC_COMPILER_ERROR_def n_insns_def)

lemma set_arg_fields [simp]:
  "vars (set_src_arg j k a c) = vars c"
  "vars (set_dest_arg j k a c) = vars c"
  "n_temp_vars (set_src_arg j k a c) = n_temp_vars c"
  "n_temp_vars (set_dest_arg j k a c) = n_temp_vars c"
  "n_dup_vars (set_src_arg j k a c) = n_dup_vars c"
  "n_dup_vars (set_dest_arg j k a c) = n_dup_vars c"
  "n_insns (set_src_arg j k a c) = n_insns c"
  "n_insns (set_dest_arg j k a c) = n_insns c"
  by (simp_all add: set_src_arg_def set_dest_arg_def n_insns_def)

lemma set_dest_arg_insn:
  "j < n_insns c \<Longrightarrow>
   insns (set_dest_arg j k a c) ! j = (insns c ! j)\<lparr>dest_args := (dest_args (insns c ! j))(k := a)\<rparr>"
  by (simp add: set_dest_arg_def n_insns_def)

lemma set_src_arg_insn:
  "j < n_insns c \<Longrightarrow>
   insns (set_src_arg j k a c) ! j = (insns c ! j)\<lparr>src_args := (src_args (insns c ! j))(k := a)\<rparr>"
  by (simp add: set_src_arg_def n_insns_def)

lemma dest_checks_fields [simp]:
  "insns (rewrite_vars_dest_checks opc var c) = insns c"
  "vars (rewrite_vars_dest_checks opc var c) = vars c"
  "n_temp_vars (rewrite_vars_dest_checks opc var c) = n_temp_vars c"
  "n_dup_vars (rewrite_vars_dest_checks opc var c) = n_dup_vars c"
  "n_insns (rewrite_vars_dest_checks opc var c) = n_insns c"
  "alloc_regs (rewrite_vars_dest_checks opc var c) = alloc_regs c"
  by (simp_all add: rewrite_vars_dest_checks_def Let_def)

lemma dup_temporary_fields [simp]:
  "fst (orc_compiler_dup_temporary c var j) = ORC_VAR_T1 + n_temp_vars c + n_dup_vars c"
  "insns (snd (orc_compiler_dup_temporary c var j)) = insns c"
  "n_insns (snd (orc_compiler_dup_temporary c var j)) = n_insns c"
  "n_temp_vars (snd (orc_compiler_dup_temporary c var j)) = n_temp_vars c"
  "n_dup_vars (snd (orc_compiler_dup_temporary c var j)) = n_dup_vars c + 1"
  by (simp_all add: orc_compiler_dup_temporary_def Let_def n_insns_def)

lemma dup_temporary_vars:
  "var \<noteq> ORC_VAR_T1 + n_temp_vars c + n_dup_vars c \<Longrightarrow>
   vars (snd (orc_compiler_dup_temporary c var j)) w =
     (if w = ORC_VAR_T1 + n_temp_vars c + n_dup_vars c then
        (vars c w)\<lparr>vartype := ORC_VAR_TYPE_TEMP, vsize := vsize (vars c var),
                   name := Some (cstring (name (vars c var)) @ ''.dup'' @ format_nat j)\<rparr>
      else vars c w)"
  by (simp add: orc_compiler_dup_temporary_def Let_def)

lemma rewrite_vars_dest_dup:
  assumes "dest_size (opcode (insns c ! j)) k \<noteq> 0"
    and "vartype (vars c (dest_args (insns c ! j) k)) = ORC_VAR_TYPE_TEMP"
    and "used (vars c (dest_args (insns c ! j) k))"
  shows "rewrite_vars_dest j c k =
    (let var = dest_args (insns c ! j) k;
         c1 = rewrite_vars_dest_checks (opcode (insns c ! j)) var c;
         c2 = (if replaced (vars c var) then set_dest_arg j k (replacement (vars c var)) c1 else c1);
         dup = ORC_VAR_T1 + n_temp_vars c + n_dup_vars c;
         c3 = snd (orc_compiler_dup_temporary c2 var j)
     in var_update dup (\<lambda>v. v\<lparr>last_use := int j\<rparr>)
          (var_update dup (\<lambda>v. v\<lparr>used := True, first_use := int j\<rparr>)
             (set_dest_arg j k dup
                (var_update var (\<lambda>v. v\<lparr>replaced := True, replacement := dup\<rparr>) c3))))"
  using assms
  by (simp add: rewrite_vars_dest_def Let_def split_beta)

lemma rewrite_vars_dest_dup_facts:
  assumes "j < n_insns c"
    and "dest_size (opcode (insns c ! j)) k \<noteq> 0"
    and "var = dest_args (insns c ! j) k"
    and "vartype (vars c var) = ORC_VAR_TYPE_TEMP"
    and "used (vars c var)"
    and "name (vars c var) = Some nm"
    and "slot = ORC_VAR_T1 + n_temp_vars c + n_dup_vars c"
    and "var \<noteq> slot"
  shows "n_dup_vars (rewrite_vars_dest j c k) = n_dup_vars c + 1 \<and>
         vartype (vars (rewrite_vars_dest j c k) slot) = ORC_VAR_TYPE_TEMP \<and>
         vsize (vars (rewrite_vars_dest j c k) slot) = vsize (vars c var) \<and>
         name (vars (rewrite_vars_dest j c k) slot) = Some (nm @ ''.dup'' @ format_nat j) \<and>
         replaced (vars (rewrite_vars_dest j c k) var) \<and>
         replacement (vars (rewrite_vars_dest j c k) var) = slot \<and>
         dest_args (insns (rewrite_vars_dest j c k) ! j) k = slot \<and>
         used (vars (rewrite_vars_dest j c k) slot) \<and>
         first_use (vars (rewrite_vars_dest j c k) slot) = int j \<and>
         last_use (vars (rewrite_vars_dest j c k) slot) = int j"
proof -
  let ?c1 = "rewrite_vars_dest_checks (opcode (insns c ! j)) var c"
  let ?c2 = "if replaced (vars c var) then set_dest_arg j k (replacement (vars c var)) ?c1 else ?c1"
  have c2: "vars ?c2 = vars c" "n_temp_vars ?c2 = n_temp_vars c" "n_dup_vars ?c2 = n_dup_vars c"
    "n_insns ?c2 = n_insns c"
    by simp_all
  have ne: "var \<noteq> ORC_VAR_T1 + n_temp_vars ?c2 + n_dup_vars ?c2"
    using assms(7,8) c2 by simp
  note dv = dup_temporary_vars [OF ne, of j]
  have r: "rewrite_vars_dest j c k =
      var_update slot (\<lambda>v. v\<lparr>last_use := int j\<rparr>)
        (var_update slot (\<lambda>v. v\<lparr>used := True, first_use := int j\<rparr>)
           (set_dest_arg j k slot
              (var_update var (\<lambda>v. v\<lparr>replaced := True, replacement := slot\<rparr>)
                 (snd (orc_compiler_dup_temporary ?c2 var j)))))"
    using rewrite_vars_dest_dup [of c j k] assms(2-5,7) by (simp add: Let_def)
  have jl: "j < n_insns (var_update var (\<lambda>v. v\<lparr>replaced := True, replacement := slot\<rparr>)
                 (snd (orc_compiler_dup_temporary ?c2 var j)))"
    using assms(1) c2(4) by simp
  show ?thesis
    unfolding r using assms(6,7,8) c2 jl
    by (simp add: dv set_dest_arg_insn cstring_def del: dup_temporary_fields(1))
qed

text \<open>
  C1. Let slot \<open>k\<close> of instruction \<open>j\<close> be a destination slot with non-zero declared
  size whose variable \<open>var\<close> is a \<open>Temp\<close> already marked used, and let
  \<open>slot = ORC_VAR_T1 + n_temp_vars + n_dup_vars\<close>. Processing the slot increments
  \<open>n_dup_vars\<close>, makes \<open>slot\<close> a \<open>Temp\<close> with the donor's size and the name
  \<open><donor>.dup<j>\<close>, sets the donor's \<open>replaced\<close> flag and its \<open>replacement\<close> to
  \<open>slot\<close>, rewrites the destination slot of the instruction to \<open>slot\<close>, and marks
  \<open>slot\<close> used with \<open>first_use = j\<close> and \<open>last_use = j\<close>. (The donor has a name and
  is not the new slot itself: \<open>sprintf\<close> is undefined otherwise.)
\<close>

theorem rewrite_vars_dest_duplicates_temp:
  assumes "j < n_insns c"
    and "dest_size (opcode (insns c ! j)) k \<noteq> 0"
    and "var = dest_args (insns c ! j) k"
    and "vartype (vars c var) = ORC_VAR_TYPE_TEMP"
    and "used (vars c var)"
    and "name (vars c var) = Some nm"
    and "slot = ORC_VAR_T1 + n_temp_vars c + n_dup_vars c"
    and "var \<noteq> slot"
  shows "n_dup_vars (rewrite_vars_dest j c k) = n_dup_vars c + 1 \<and>
         vartype (vars (rewrite_vars_dest j c k) slot) = ORC_VAR_TYPE_TEMP \<and>
         vsize (vars (rewrite_vars_dest j c k) slot) = vsize (vars c var) \<and>
         name (vars (rewrite_vars_dest j c k) slot) = Some (nm @ ''.dup'' @ format_nat j) \<and>
         replaced (vars (rewrite_vars_dest j c k) var) \<and>
         replacement (vars (rewrite_vars_dest j c k) var) = slot \<and>
         dest_args (insns (rewrite_vars_dest j c k) ! j) k = slot \<and>
         used (vars (rewrite_vars_dest j c k) slot) \<and>
         first_use (vars (rewrite_vars_dest j c k) slot) = int j \<and>
         last_use (vars (rewrite_vars_dest j c k) slot) = int j"
  using assms by (rule rewrite_vars_dest_dup_facts)

theorem rewrite_vars_dest_duplicates_temp_witness:
  "0 < n_insns example_redefine \<and>
   dest_size (opcode (insns example_redefine ! 0)) 0 = 2 \<and>
   dest_args (insns example_redefine ! 0) 0 = ORC_VAR_T1 \<and>
   vartype (vars example_redefine ORC_VAR_T1) = ORC_VAR_TYPE_TEMP \<and>
   used (vars example_redefine ORC_VAR_T1) \<and>
   name (vars example_redefine ORC_VAR_T1) = Some ''t1'' \<and>
   ORC_VAR_T1 + n_temp_vars example_redefine + n_dup_vars example_redefine = 29 \<and>
   n_dup_vars (rewrite_vars_dest 0 example_redefine 0) = 1 \<and>
   name (vars (rewrite_vars_dest 0 example_redefine 0) 29) = Some ''t1.dup0'' \<and>
   vsize (vars (rewrite_vars_dest 0 example_redefine 0) 29) = 2 \<and>
   replaced (vars (rewrite_vars_dest 0 example_redefine 0) ORC_VAR_T1) \<and>
   replacement (vars (rewrite_vars_dest 0 example_redefine 0) ORC_VAR_T1) = 29 \<and>
   dest_args (insns (rewrite_vars_dest 0 example_redefine 0) ! 0) 0 = 29 \<and>
   used (vars (rewrite_vars_dest 0 example_redefine 0) 29) \<and>
   first_use (vars (rewrite_vars_dest 0 example_redefine 0) 29) = 0 \<and>
   last_use (vars (rewrite_vars_dest 0 example_redefine 0) 29) = 0"
proof -
  have h: "0 < n_insns example_redefine"
    "dest_size (opcode (insns example_redefine ! 0)) 0 \<noteq> 0"
    "ORC_VAR_T1 = dest_args (insns example_redefine ! 0) 0"
    "vartype (vars example_redefine ORC_VAR_T1) = ORC_VAR_TYPE_TEMP"
    "used (vars example_redefine ORC_VAR_T1)"
    "name (vars example_redefine ORC_VAR_T1) = Some ''t1''"
    "29 = ORC_VAR_T1 + n_temp_vars example_redefine + n_dup_vars example_redefine"
    "ORC_VAR_T1 \<noteq> 29"
    by (simp_all add: example_redefine_def example_simps)
  have v: "dest_size (opcode (insns example_redefine ! 0)) 0 = 2"
    "vsize (vars example_redefine ORC_VAR_T1) = 2"
    "n_dup_vars example_redefine = 0"
    by (simp_all add: example_redefine_def example_simps)
  have f: "format_nat 0 = ''0''"
    by code_simp
  from rewrite_vars_dest_duplicates_temp [OF h] h v f show ?thesis by simp
qed

section \<open>The renaming pass on concrete programs\<close>

lemma slot_lists:
  "[0..<ORC_STATIC_OPCODE_N_DEST] = [0, 1]"
  "[0..<ORC_STATIC_OPCODE_N_SRC] = [0, 1, 2, 3]"
  by (simp_all add: ORC_STATIC_OPCODE_N_DEST_def ORC_STATIC_OPCODE_N_SRC_def upt_rec)

lemma eight_temps_facts:
  "insns example_eight_temps =
     [example_insn copyw ORC_VAR_T1 ORC_VAR_S1 0, example_insn copyw ORC_VAR_T1 ORC_VAR_S1 0]"
  "vars example_eight_temps ORC_VAR_S1 = example_var ''s1'' 2 ORC_VAR_TYPE_SRC"
  "vars example_eight_temps ORC_VAR_T1 = example_var ''t1'' 2 ORC_VAR_TYPE_TEMP"
  "n_temp_vars example_eight_temps = 8"
  "n_dup_vars example_eight_temps = 0"
  "error example_eight_temps = False"
  by (simp_all add: example_eight_temps_def example_context_def example_vars_def zero_compiler_def
      ORC_VAR_S1_def ORC_VAR_T1_def)

lemma upt_0_2: "[0..<2] = [0, Suc 0]"
  by (simp add: upt_rec)

lemma insn_facts:
  "opcode (example_insn opc d s1 s2) = opc"
  "dest_args (example_insn opc d s1 s2) 0 = d"
  "src_args (example_insn opc d s1 s2) 0 = s1"
  "src_size copyw 0 = 2" "src_size copyw (Suc 0) = 0" "src_size copyw 2 = 0" "src_size copyw 3 = 0"
  "dest_size copyw 0 = 2" "dest_size copyw (Suc 0) = 0"
  "flags copyw = {}"
  by (simp_all add: example_insn_def copyw_def example_opcode_def)

lemma var_facts:
  "vartype (example_var nm sz ty) = ty"
  "used (example_var nm sz ty) = False"
  "replaced (example_var nm sz ty) = False"
  "name (example_var nm sz ty) = Some nm"
  "vsize (example_var nm sz ty) = sz"
  by (simp_all add: example_var_def zero_variable_def)

lemma set_arg_opcode [simp]:
  "opcode (insns (set_src_arg j k a c) ! i) = opcode (insns c ! i)"
  "opcode (insns (set_dest_arg j k a c) ! i) = opcode (insns c ! i)"
proof -
  show "opcode (insns (set_src_arg j k a c) ! i) = opcode (insns c ! i)"
    by (cases "j < length (insns c)") (simp_all add: set_src_arg_def nth_list_update list_update_beyond)
  show "opcode (insns (set_dest_arg j k a c) ! i) = opcode (insns c ! i)"
    by (cases "j < length (insns c)") (simp_all add: set_dest_arg_def nth_list_update list_update_beyond)
qed

lemma rewrite_vars_src_opcode [simp]:
  "opcode (insns (rewrite_vars_src j c k) ! i) = opcode (insns c ! i)"
  by (simp add: rewrite_vars_src_def Let_def)

lemma rewrite_vars_dest_opcode [simp]:
  "opcode (insns (rewrite_vars_dest j c k) ! i) = opcode (insns c ! i)"
  by (simp add: rewrite_vars_dest_def Let_def split_beta)

lemma copyw_unused_slots:
  assumes "opcode (insns c ! j) = copyw"
  shows "rewrite_vars_src j c (Suc 0) = c" "rewrite_vars_src j c 2 = c"
    "rewrite_vars_src j c 3 = c" "rewrite_vars_dest j c (Suc 0) = c"
  using assms by (simp_all add: rewrite_vars_src_def rewrite_vars_dest_def insn_facts)

lemma copyw_insn:
  assumes "opcode (insns c ! j) = copyw"
  shows "rewrite_vars_insn c j = rewrite_vars_dest j (rewrite_vars_src j c 0) 0"
  using assms by (simp add: rewrite_vars_insn_def slot_lists copyw_unused_slots)

lemma var_neq: "ORC_VAR_T1 \<noteq> ORC_VAR_S1" "ORC_VAR_S1 \<noteq> ORC_VAR_T1"
  by (simp_all add: ORC_VAR_T1_def ORC_VAR_S1_def)

lemma eight_temps_step_src0: "rewrite_vars_src 0 example_eight_temps 0 = eight_temps_src0"
  by (simp add: eight_temps_src0_def rewrite_vars_src_def Let_def eight_temps_facts insn_facts var_facts)

lemma eight_temps_step_dest0: "rewrite_vars_dest 0 eight_temps_src0 0 = eight_temps_insn0"
  by (simp add: eight_temps_src0_def eight_temps_insn0_def rewrite_vars_dest_def rewrite_vars_dest_checks_def Let_def
      eight_temps_facts insn_facts var_facts var_neq)

lemma eight_temps_step_src1: "rewrite_vars_src (Suc 0) eight_temps_insn0 0 = eight_temps_src1"
  by (simp add: eight_temps_src0_def eight_temps_insn0_def eight_temps_src1_def rewrite_vars_src_def Let_def
      eight_temps_facts insn_facts var_facts var_neq)

lemma eight_temps_pass:
  "orc_compiler_rewrite_vars example_eight_temps = rewrite_vars_dest (Suc 0) eight_temps_src1 0"
proof -
  have o0: "opcode (insns example_eight_temps ! 0) = copyw"
    by (simp add: eight_temps_facts insn_facts)
  have o1: "opcode (insns eight_temps_insn0 ! Suc 0) = copyw"
    by (simp add: eight_temps_insn0_def eight_temps_src0_def eight_temps_facts insn_facts)
  have 0: "rewrite_vars_insn example_eight_temps 0 = eight_temps_insn0"
    by (simp only: copyw_insn [OF o0] eight_temps_step_src0 eight_temps_step_dest0)
  have 1: "rewrite_vars_insn eight_temps_insn0 (Suc 0) = rewrite_vars_dest (Suc 0) eight_temps_src1 0"
    by (simp only: copyw_insn [OF o1] eight_temps_step_src1)
  show ?thesis
    by (simp add: orc_compiler_rewrite_vars_def n_insns_def eight_temps_facts upt_0_2 0 1)
qed

lemma eight_temps_src1_counts: "n_temp_vars eight_temps_src1 = 8" "n_dup_vars eight_temps_src1 = 0"
  by (simp_all add: eight_temps_src1_def eight_temps_insn0_def eight_temps_src0_def eight_temps_facts)

lemma eight_temps_src1_facts:
  "Suc 0 < n_insns eight_temps_src1"
  "dest_size (opcode (insns eight_temps_src1 ! Suc 0)) 0 \<noteq> 0"
  "ORC_VAR_T1 = dest_args (insns eight_temps_src1 ! Suc 0) 0"
  "vartype (vars eight_temps_src1 ORC_VAR_T1) = ORC_VAR_TYPE_TEMP"
  "used (vars eight_temps_src1 ORC_VAR_T1)"
  "name (vars eight_temps_src1 ORC_VAR_T1) = Some ''t1''"
  "36 = ORC_VAR_T1 + n_temp_vars eight_temps_src1 + n_dup_vars eight_temps_src1"
  "ORC_VAR_T1 \<noteq> 36"
proof -
  show "36 = ORC_VAR_T1 + n_temp_vars eight_temps_src1 + n_dup_vars eight_temps_src1" "ORC_VAR_T1 \<noteq> 36"
    by (simp_all add: eight_temps_src1_counts ORC_VAR_T1_def)
qed (simp_all add: eight_temps_src1_def eight_temps_insn0_def eight_temps_src0_def eight_temps_facts insn_facts var_facts var_neq n_insns_def)

lemma eight_temps_no_error: "error (rewrite_vars_dest (Suc 0) eight_temps_src1 0) = False"
proof -
  have "error eight_temps_src1 = False" "flags (opcode (insns eight_temps_src1 ! Suc 0)) = {}"
    by (simp_all add: eight_temps_src1_def eight_temps_insn0_def eight_temps_src0_def eight_temps_facts insn_facts)
  with eight_temps_src1_facts show ?thesis
    by (simp add: rewrite_vars_dest_dup Let_def rewrite_vars_dest_checks_def
      orc_compiler_dup_temporary_def set_dest_arg_def)
qed

text \<open>
  C9 on the code: with eight temporaries declared, the second definition of \<open>t1\<close>
  makes the renaming pass create its duplicate at slot \<open>ORC_VAR_T1 + 8 + 0 = 36\<close>,
  write the variable table there and store 36 in the instruction. Slot 36 is outside a
  table of \<open>ORC_N_VARIABLES\<close> entries (and outside the 36 slots 0..35 that the
  enumeration \<open>D1..T8\<close> names). No diagnostic is raised.
\<close>

theorem dup_temporary_slot_beyond_table:
  "dest_args (insns (orc_compiler_rewrite_vars example_eight_temps) ! 1) 0 = 36 \<and>
   name (vars (orc_compiler_rewrite_vars example_eight_temps) 36) = Some ''t1.dup1'' \<and>
   used (vars (orc_compiler_rewrite_vars example_eight_temps) 36) \<and>
   n_dup_vars (orc_compiler_rewrite_vars example_eight_temps) = 1 \<and>
   \<not> error (orc_compiler_rewrite_vars example_eight_temps) \<and>
   \<not> 36 < ORC_N_VARIABLES \<and> ORC_VAR_T1 + 8 = 36"
proof -
  have f: "format_nat (Suc 0) = ''1''" by code_simp
  from rewrite_vars_dest_dup_facts [OF eight_temps_src1_facts] eight_temps_src1_counts eight_temps_no_error f
  show ?thesis
    unfolding eight_temps_pass
    by (simp add: ORC_N_VARIABLES_def ORC_VAR_T1_def)
qed

section \<open>Idempotence of the renaming pass\<close>

lemma touch_fields [simp]:
  "used (touch s j v) = True"
  "last_use (touch s j v) = int j"
  "first_use (touch s j v) = (if used v then first_use v else int j)"
  "load_dest (touch s j v) = (load_dest v \<or> s \<and> vartype v = ORC_VAR_TYPE_DEST)"
  "vartype (touch s j v) = vartype v"
  "replaced (touch s j v) = replaced v"
  by (auto simp: touch_def Let_def)

lemma touch_settled:
  "used v \<Longrightarrow> (s \<and> vartype v = ORC_VAR_TYPE_DEST \<longrightarrow> load_dest v) \<Longrightarrow>
   touch s j v = v\<lparr>last_use := int j\<rparr>"
  by (auto simp: touch_def Let_def)

lemma apply_touches_simps [simp]:
  "apply_touches [] f = f"
  "apply_touches ((v, s, j) # ops) f = apply_touches ops (f(v := touch s j (f v)))"
  "apply_touches (xs @ ys) f = apply_touches ys (apply_touches xs f)"
  by (simp_all add: apply_touches_def)

lemma apply_touches_used: "used (f w) \<Longrightarrow> used (apply_touches ops f w)"
  by (induction ops arbitrary: f) auto

lemma apply_touches_load_dest: "load_dest (f w) \<Longrightarrow> load_dest (apply_touches ops f w)"
proof (induction ops arbitrary: f)
  case Nil
  then show ?case by simp
next
  case (Cons op ops)
  obtain v s j where op: "op = (v, s, j)" by (cases op)
  have "load_dest ((f(v := touch s j (f v))) w)" using Cons.prems by auto
  then have "load_dest (apply_touches ops (f(v := touch s j (f v))) w)"
    by (rule Cons.IH [of "f(v := touch s j (f v))"])
  then show ?case unfolding op by simp
qed

lemma apply_touches_vartype [simp]: "vartype (apply_touches ops f w) = vartype (f w)"
proof (induction ops arbitrary: f)
  case Nil
  show ?case by simp
next
  case (Cons op ops)
  obtain v s j where op: "op = (v, s, j)" by (cases op)
  show ?case unfolding op by (simp add: Cons.IH)
qed

lemma apply_touches_replaced [simp]: "replaced (apply_touches ops f w) = replaced (f w)"
proof (induction ops arbitrary: f)
  case Nil
  show ?case by simp
next
  case (Cons op ops)
  obtain v s j where op: "op = (v, s, j)" by (cases op)
  show ?case unfolding op by (simp add: Cons.IH)
qed

text \<open>After the touches, every touched variable is settled.\<close>

lemma apply_touches_settles:
  "(v, s, j) \<in> set ops \<Longrightarrow>
   used (apply_touches ops f v) \<and>
   (s \<and> vartype (f v) = ORC_VAR_TYPE_DEST \<longrightarrow> load_dest (apply_touches ops f v))"
proof (induction ops arbitrary: f)
  case Nil
  then show ?case by simp
next
  case (Cons op ops)
  obtain v' s' j' where op: "op = (v', s', j')" by (cases op)
  let ?f = "f(v' := touch s' j' (f v'))"
  have vt: "vartype (?f v) = vartype (f v)" by simp
  show ?case
  proof (cases "(v, s, j) \<in> set ops")
    case True
    from Cons.IH [OF True, of ?f] show ?thesis
      unfolding op apply_touches_simps vt .
  next
    case False
    with Cons.prems op have e: "v' = v" "s' = s" "j' = j" by auto
    have "used (?f v)" unfolding e by simp
    then have u: "used (apply_touches ops ?f v)"
      by (rule apply_touches_used)
    have l: "load_dest (apply_touches ops ?f v)" if "s \<and> vartype (f v) = ORC_VAR_TYPE_DEST"
    proof -
      have "load_dest (?f v)" unfolding e using that by simp
      then show ?thesis by (rule apply_touches_load_dest)
    qed
    from u l show ?thesis unfolding op apply_touches_simps by blast
  qed
qed

lemma apply_touches_last_use:
  "last_use (apply_touches ops f w) =
     (case last_touch ops w of Some j \<Rightarrow> int j | None \<Rightarrow> last_use (f w))"
proof (induction ops arbitrary: f)
  case Nil
  show ?case by simp
next
  case (Cons op ops)
  obtain v s j where op: "op = (v, s, j)" by (cases op)
  show ?case unfolding op by (simp add: Cons.IH split: option.split)
qed

text \<open>On settled variables the touches only reassign \<open>last_use\<close>.\<close>

lemma apply_touches_on_settled:
  assumes "\<And>v s j. (v, s, j) \<in> set ops \<Longrightarrow>
      used (g v) \<and> (s \<and> vartype (g v) = ORC_VAR_TYPE_DEST \<longrightarrow> load_dest (g v))"
  shows "apply_touches ops g w =
     (g w)\<lparr>last_use := (case last_touch ops w of Some j \<Rightarrow> int j | None \<Rightarrow> last_use (g w))\<rparr>"
  using assms
proof (induction ops arbitrary: g)
  case Nil
  show ?case by simp
next
  case (Cons op ops)
  obtain v s j where op: "op = (v, s, j)" by (cases op)
  have "(v, s, j) \<in> set (op # ops)" using op by simp
  from Cons.prems [OF this]
  have sv: "used (g v)" "s \<and> vartype (g v) = ORC_VAR_TYPE_DEST \<longrightarrow> load_dest (g v)"
    by blast+
  have t: "touch s j (g v) = (g v)\<lparr>last_use := int j\<rparr>"
    using sv by (rule touch_settled)
  let ?g = "g(v := (g v)\<lparr>last_use := int j\<rparr>)"
  have pre: "used (?g v') \<and> (s' \<and> vartype (?g v') = ORC_VAR_TYPE_DEST \<longrightarrow> load_dest (?g v'))"
    if "(v', s', j') \<in> set ops" for v' s' j'
  proof -
    from that have "(v', s', j') \<in> set (op # ops)" by simp
    from Cons.prems [OF this] show ?thesis by auto
  qed
  have "apply_touches ops ?g w =
     (?g w)\<lparr>last_use := (case last_touch ops w of Some j \<Rightarrow> int j | None \<Rightarrow> last_use (?g w))\<rparr>"
    by (rule Cons.IH) (rule pre)
  then show ?case
    unfolding op by (simp add: t split: option.split)
qed

lemma apply_touches_idem:
  "apply_touches ops (apply_touches ops f) = apply_touches ops f"
proof
  fix w
  let ?g = "apply_touches ops f"
  have "apply_touches ops ?g w =
      (?g w)\<lparr>last_use := (case last_touch ops w of Some j \<Rightarrow> int j | None \<Rightarrow> last_use (?g w))\<rparr>"
  proof (rule apply_touches_on_settled)
    fix v s j
    assume "(v, s, j) \<in> set ops"
    from apply_touches_settles [OF this, of f]
    show "used (?g v) \<and> (s \<and> vartype (?g v) = ORC_VAR_TYPE_DEST \<longrightarrow> load_dest (?g v))"
      by simp
  qed
  also have "(case last_touch ops w of Some j \<Rightarrow> int j | None \<Rightarrow> last_use (?g w)) = last_use (?g w)"
    by (simp add: apply_touches_last_use split: option.split)
  finally show "apply_touches ops ?g w = ?g w" by simp
qed

text \<open>The pass, slot by slot, is such a sequence of touches when it cannot rename.\<close>

lemma no_renaming_preserved:
  assumes "no_renaming c" "insns c' = insns c" "vars c' = apply_touches ops (vars c)"
  shows "no_renaming c'"
  using assms by (simp add: no_renaming_def n_insns_def)

lemma rewrite_vars_src_touch:
  assumes "\<forall>v. \<not> replaced (vars c v)"
  shows "insns (rewrite_vars_src j c k) = insns c \<and>
         n_dup_vars (rewrite_vars_src j c k) = n_dup_vars c \<and>
         n_temp_vars (rewrite_vars_src j c k) = n_temp_vars c \<and>
         vars (rewrite_vars_src j c k) = apply_touches (src_ops (insns c) j [k]) (vars c)"
  using assms
  by (auto simp: rewrite_vars_src_def Let_def src_ops_def touch_def fun_eq_iff)

lemma rewrite_vars_dest_touch:
  assumes "\<forall>v. \<not> replaced (vars c v)"
    and "dest_size (opcode (insns c ! j)) k \<noteq> 0 \<longrightarrow>
         vartype (vars c (dest_args (insns c ! j) k)) \<noteq> ORC_VAR_TYPE_TEMP"
  shows "insns (rewrite_vars_dest j c k) = insns c \<and>
         n_dup_vars (rewrite_vars_dest j c k) = n_dup_vars c \<and>
         n_temp_vars (rewrite_vars_dest j c k) = n_temp_vars c \<and>
         vars (rewrite_vars_dest j c k) = apply_touches (dest_ops (insns c) j [k]) (vars c)"
  using assms
  by (auto simp: rewrite_vars_dest_def Let_def dest_ops_def touch_def fun_eq_iff)

lemma ops_Cons:
  "src_ops I j (k # ks) = src_ops I j [k] @ src_ops I j ks"
  "dest_ops I j (k # ks) = dest_ops I j [k] @ dest_ops I j ks"
  by (simp_all add: src_ops_def dest_ops_def)

lemma rewrite_vars_src_fold:
  assumes "\<forall>v. \<not> replaced (vars c v)"
  shows "insns (foldl (rewrite_vars_src j) c ks) = insns c \<and>
         n_dup_vars (foldl (rewrite_vars_src j) c ks) = n_dup_vars c \<and>
         n_temp_vars (foldl (rewrite_vars_src j) c ks) = n_temp_vars c \<and>
         vars (foldl (rewrite_vars_src j) c ks) = apply_touches (src_ops (insns c) j ks) (vars c)"
  using assms
proof (induction ks arbitrary: c)
  case Nil
  show ?case by (simp add: src_ops_def)
next
  case (Cons k ks)
  let ?c = "rewrite_vars_src j c k"
  note step = rewrite_vars_src_touch [OF Cons.prems, of j k]
  have nr: "\<forall>v. \<not> replaced (vars ?c v)"
    using step Cons.prems by simp
  from Cons.IH [OF nr] step show ?case
    by (simp add: ops_Cons(1) [of _ _ k ks])
qed

lemma rewrite_vars_dest_fold:
  assumes "\<forall>v. \<not> replaced (vars c v)"
    and "\<forall>k. dest_size (opcode (insns c ! j)) k \<noteq> 0 \<longrightarrow>
         vartype (vars c (dest_args (insns c ! j) k)) \<noteq> ORC_VAR_TYPE_TEMP"
  shows "insns (foldl (rewrite_vars_dest j) c ks) = insns c \<and>
         n_dup_vars (foldl (rewrite_vars_dest j) c ks) = n_dup_vars c \<and>
         n_temp_vars (foldl (rewrite_vars_dest j) c ks) = n_temp_vars c \<and>
         vars (foldl (rewrite_vars_dest j) c ks) = apply_touches (dest_ops (insns c) j ks) (vars c)"
  using assms
proof (induction ks arbitrary: c)
  case Nil
  show ?case by (simp add: dest_ops_def)
next
  case (Cons k ks)
  let ?c = "rewrite_vars_dest j c k"
  have "dest_size (opcode (insns c ! j)) k \<noteq> 0 \<longrightarrow>
      vartype (vars c (dest_args (insns c ! j) k)) \<noteq> ORC_VAR_TYPE_TEMP"
    using Cons.prems(2) by blast
  note step = rewrite_vars_dest_touch [OF Cons.prems(1) this]
  have nr: "\<forall>v. \<not> replaced (vars ?c v)"
    using step Cons.prems(1) by simp
  have nt: "\<forall>k. dest_size (opcode (insns ?c ! j)) k \<noteq> 0 \<longrightarrow>
      vartype (vars ?c (dest_args (insns ?c ! j) k)) \<noteq> ORC_VAR_TYPE_TEMP"
    using step Cons.prems(2) by simp
  from Cons.IH [OF nr nt] step show ?case
    by (simp add: ops_Cons(2) [of _ _ k ks])
qed

lemma rewrite_vars_insn_touches:
  assumes "no_renaming c" "j < n_insns c"
  shows "insns (rewrite_vars_insn c j) = insns c \<and>
         n_dup_vars (rewrite_vars_insn c j) = n_dup_vars c \<and>
         n_temp_vars (rewrite_vars_insn c j) = n_temp_vars c \<and>
         vars (rewrite_vars_insn c j) = apply_touches (insn_ops (insns c) j) (vars c)"
proof -
  let ?c = "foldl (rewrite_vars_src j) c [0..<ORC_STATIC_OPCODE_N_SRC]"
  from assms(1) have nr: "\<forall>v. \<not> replaced (vars c v)"
    by (simp add: no_renaming_def)
  note s = rewrite_vars_src_fold [OF nr, of j "[0..<ORC_STATIC_OPCODE_N_SRC]"]
  have nr': "\<forall>v. \<not> replaced (vars ?c v)"
    using s nr by simp
  have nt: "\<forall>k. dest_size (opcode (insns ?c ! j)) k \<noteq> 0 \<longrightarrow>
      vartype (vars ?c (dest_args (insns ?c ! j) k)) \<noteq> ORC_VAR_TYPE_TEMP"
    using s assms by (simp add: no_renaming_def)
  from rewrite_vars_dest_fold [OF nr' nt, of "[0..<ORC_STATIC_OPCODE_N_DEST]"] s
  show ?thesis
    by (simp add: rewrite_vars_insn_def insn_ops_def)
qed

lemma rewrite_vars_prefix_touches:
  assumes "no_renaming c" "m \<le> n_insns c"
  shows "insns (foldl rewrite_vars_insn c [0..<m]) = insns c \<and>
         n_dup_vars (foldl rewrite_vars_insn c [0..<m]) = n_dup_vars c \<and>
         n_temp_vars (foldl rewrite_vars_insn c [0..<m]) = n_temp_vars c \<and>
         vars (foldl rewrite_vars_insn c [0..<m]) = apply_touches (prog_ops (insns c) m) (vars c)"
  using assms(2)
proof (induction m)
  case 0
  show ?case by (simp add: prog_ops_def)
next
  case (Suc m)
  let ?c = "foldl rewrite_vars_insn c [0..<m]"
  from Suc have ih: "insns ?c = insns c \<and> n_dup_vars ?c = n_dup_vars c \<and>
      n_temp_vars ?c = n_temp_vars c \<and>
      vars ?c = apply_touches (prog_ops (insns c) m) (vars c)"
    by simp
  have nr: "no_renaming ?c"
    using assms(1) ih by (blast intro: no_renaming_preserved)
  have lt: "m < n_insns ?c"
    using Suc.prems ih by (simp add: n_insns_def)
  from rewrite_vars_insn_touches [OF nr lt] ih show ?case
    by (simp add: prog_ops_def)
qed

lemma rewrite_vars_touches:
  assumes "no_renaming c"
  shows "insns (orc_compiler_rewrite_vars c) = insns c \<and>
         n_dup_vars (orc_compiler_rewrite_vars c) = n_dup_vars c \<and>
         n_temp_vars (orc_compiler_rewrite_vars c) = n_temp_vars c \<and>
         vars (orc_compiler_rewrite_vars c) =
           apply_touches (prog_ops (insns c) (n_insns c)) (vars c)"
  using rewrite_vars_prefix_touches [OF assms, of "n_insns c"]
  by (simp add: orc_compiler_rewrite_vars_def)

lemma rewrite_vars_twice:
  assumes "no_renaming c"
  shows "insns (orc_compiler_rewrite_vars (orc_compiler_rewrite_vars c)) =
           insns (orc_compiler_rewrite_vars c) \<and>
         vars (orc_compiler_rewrite_vars (orc_compiler_rewrite_vars c)) =
           vars (orc_compiler_rewrite_vars c) \<and>
         n_dup_vars (orc_compiler_rewrite_vars (orc_compiler_rewrite_vars c)) =
           n_dup_vars (orc_compiler_rewrite_vars c) \<and>
         n_temp_vars (orc_compiler_rewrite_vars (orc_compiler_rewrite_vars c)) =
           n_temp_vars (orc_compiler_rewrite_vars c)"
proof -
  note first = rewrite_vars_touches [OF assms]
  have nr: "no_renaming (orc_compiler_rewrite_vars c)"
    using assms first by (blast intro: no_renaming_preserved)
  from rewrite_vars_touches [OF nr] first show ?thesis
    by (simp add: n_insns_def apply_touches_idem)
qed

lemma single_temp_facts:
  "insns example_single_temp = [example_insn copyw ORC_VAR_T1 ORC_VAR_S1 0]"
  "vars example_single_temp ORC_VAR_S1 = example_var ''s1'' 2 ORC_VAR_TYPE_SRC"
  "vars example_single_temp ORC_VAR_T1 = example_var ''t1'' 2 ORC_VAR_TYPE_TEMP"
  "n_temp_vars example_single_temp = 1"
  "n_dup_vars example_single_temp = 0"
  "error example_single_temp = False"
  by (simp_all add: example_single_temp_def example_context_def example_vars_def zero_compiler_def
      ORC_VAR_S1_def ORC_VAR_T1_def)

lemma single_temp_first_run:
  "orc_compiler_rewrite_vars example_single_temp = single_temp_once"
proof -
  have o: "opcode (insns example_single_temp ! 0) = copyw"
    by (simp add: single_temp_facts insn_facts)
  have a: "rewrite_vars_src 0 example_single_temp 0 = single_temp_src0"
    by (simp add: single_temp_src0_def rewrite_vars_src_def Let_def single_temp_facts insn_facts
        var_facts)
  have b: "rewrite_vars_dest 0 single_temp_src0 0 = single_temp_once"
    by (simp add: single_temp_src0_def single_temp_once_def rewrite_vars_dest_def
        rewrite_vars_dest_checks_def Let_def single_temp_facts insn_facts var_facts var_neq)
  have "rewrite_vars_insn example_single_temp 0 = single_temp_once"
    by (simp only: copyw_insn [OF o] a b)
  then show ?thesis
    by (simp add: orc_compiler_rewrite_vars_def n_insns_def single_temp_facts)
qed

lemma single_temp_second_run:
  "orc_compiler_rewrite_vars single_temp_once = rewrite_vars_dest 0 single_temp_again_src0 0"
proof -
  have o: "opcode (insns single_temp_once ! 0) = copyw"
    by (simp add: single_temp_once_def single_temp_src0_def single_temp_facts insn_facts)
  have a: "rewrite_vars_src 0 single_temp_once 0 = single_temp_again_src0"
    by (simp add: single_temp_again_src0_def single_temp_once_def single_temp_src0_def
        rewrite_vars_src_def Let_def single_temp_facts insn_facts var_facts var_neq)
  have "rewrite_vars_insn single_temp_once 0 = rewrite_vars_dest 0 single_temp_again_src0 0"
    by (simp only: copyw_insn [OF o] a)
  then show ?thesis
    by (simp add: orc_compiler_rewrite_vars_def n_insns_def single_temp_once_def
        single_temp_src0_def single_temp_facts)
qed

lemma single_temp_again_facts:
  "0 < n_insns single_temp_again_src0"
  "dest_size (opcode (insns single_temp_again_src0 ! 0)) 0 \<noteq> 0"
  "ORC_VAR_T1 = dest_args (insns single_temp_again_src0 ! 0) 0"
  "vartype (vars single_temp_again_src0 ORC_VAR_T1) = ORC_VAR_TYPE_TEMP"
  "used (vars single_temp_again_src0 ORC_VAR_T1)"
  "name (vars single_temp_again_src0 ORC_VAR_T1) = Some ''t1''"
  "29 = ORC_VAR_T1 + n_temp_vars single_temp_again_src0 + n_dup_vars single_temp_again_src0"
  "ORC_VAR_T1 \<noteq> 29"
proof -
  have n: "n_temp_vars single_temp_again_src0 = 1" "n_dup_vars single_temp_again_src0 = 0"
    by (simp_all add: single_temp_again_src0_def single_temp_once_def single_temp_src0_def
        single_temp_facts)
  show "29 = ORC_VAR_T1 + n_temp_vars single_temp_again_src0 + n_dup_vars single_temp_again_src0"
    "ORC_VAR_T1 \<noteq> 29"
    by (simp_all add: n ORC_VAR_T1_def)
qed (simp_all add: single_temp_again_src0_def single_temp_once_def single_temp_src0_def
      single_temp_facts insn_facts var_facts var_neq n_insns_def)

text \<open>
  C7, as stated, fails. On the one-instruction program \<open>copyw t1, s1\<close> the first run
  creates no duplicate and leaves the destination slot at \<open>t1\<close>; run again on its own
  output, the pass finds \<open>t1\<close> already used, creates the duplicate \<open>t1.dup0\<close> at slot
  29 and rewrites the destination slot to it.
\<close>

theorem rewrite_vars_second_run_renames:
  "n_dup_vars (orc_compiler_rewrite_vars example_single_temp) = 0 \<and>
   dest_args (insns (orc_compiler_rewrite_vars example_single_temp) ! 0) 0 = ORC_VAR_T1 \<and>
   \<not> error (orc_compiler_rewrite_vars example_single_temp) \<and>
   n_dup_vars (orc_compiler_rewrite_vars (orc_compiler_rewrite_vars example_single_temp)) = 1 \<and>
   dest_args (insns (orc_compiler_rewrite_vars (orc_compiler_rewrite_vars example_single_temp)) ! 0) 0
     = 29 \<and>
   used (vars (orc_compiler_rewrite_vars (orc_compiler_rewrite_vars example_single_temp)) 29)"
proof -
  have once: "n_dup_vars single_temp_once = 0"
    "dest_args (insns single_temp_once ! 0) 0 = ORC_VAR_T1"
    "\<not> error single_temp_once"
    by (simp_all add: single_temp_once_def single_temp_src0_def single_temp_facts insn_facts)
  have n: "n_dup_vars single_temp_again_src0 = 0"
    by (simp add: single_temp_again_src0_def single_temp_once_def single_temp_src0_def
        single_temp_facts)
  from rewrite_vars_dest_dup_facts [OF single_temp_again_facts] once n show ?thesis
    unfolding single_temp_first_run single_temp_second_run by simp
qed

lemma example_copy_no_renaming: "no_renaming example_copy"
  by (simp add: no_renaming_def example_copy_def example_simps split: option.split)

text \<open>
  C7, amended. If the pass starts from a context in which no variable carries a rename
  link and no destination slot in use holds a temporary, then running it a second time
  on its output performs no rewrites: the instruction list, the variable table (so
  every usage field) and the counts of temporaries and duplicates are the same after
  the second run as after the first. (A program that writes a temporary is renamed
  again by a second run, as the counterexample shows.)
\<close>

theorem rewrite_vars_idempotent_without_temps:
  assumes "no_renaming c"
  shows "insns (orc_compiler_rewrite_vars (orc_compiler_rewrite_vars c)) =
           insns (orc_compiler_rewrite_vars c) \<and>
         vars (orc_compiler_rewrite_vars (orc_compiler_rewrite_vars c)) =
           vars (orc_compiler_rewrite_vars c) \<and>
         n_dup_vars (orc_compiler_rewrite_vars (orc_compiler_rewrite_vars c)) =
           n_dup_vars (orc_compiler_rewrite_vars c) \<and>
         n_temp_vars (orc_compiler_rewrite_vars (orc_compiler_rewrite_vars c)) =
           n_temp_vars (orc_compiler_rewrite_vars c)"
  using assms by (rule rewrite_vars_twice)

theorem rewrite_vars_idempotent_without_temps_witness:
  "no_renaming example_copy \<and>
   insns (orc_compiler_rewrite_vars (orc_compiler_rewrite_vars example_copy)) =
     insns (orc_compiler_rewrite_vars example_copy) \<and>
   vars (orc_compiler_rewrite_vars (orc_compiler_rewrite_vars example_copy)) =
     vars (orc_compiler_rewrite_vars example_copy) \<and>
   n_dup_vars (orc_compiler_rewrite_vars (orc_compiler_rewrite_vars example_copy)) = 0"
proof -
  have "n_dup_vars (orc_compiler_rewrite_vars example_copy) = 0"
    using rewrite_vars_touches [OF example_copy_no_renaming]
    by (simp add: example_copy_def example_simps)
  with rewrite_vars_idempotent_without_temps [OF example_copy_no_renaming]
    example_copy_no_renaming show ?thesis by simp
qed

section \<open>Release of registers by the local allocation pass\<close>





lemma take_register_fields [simp]:
  "vars (take_register s r) = vars s"
  "insns (take_register s r) = insns s"
  "n_insns (take_register s r) = n_insns s"
  "data_register_offset (take_register s r) = data_register_offset s"
  "error (take_register s r) = error s"
  "alloc_regs (take_register s r) = (alloc_regs s)(r := alloc_regs s r + 1)"
  by (simp_all add: take_register_def n_insns_def)

lemma register_overflow_error [simp]: "error (register_overflow s d)"
  by (simp add: register_overflow_def)








lemma rewrite_vars2_death_error: "error s \<Longrightarrow> error (rewrite_vars2_death j s i)"
  by (simp add: rewrite_vars2_death_def)











section \<open>The allocation passes on a concrete program\<close>




















section \<open>Chaining a destination onto itself\<close>

















section \<open>Chaining onto a temporary\<close>












section \<open>Chaining onto a live destination\<close>























section \<open>The refcounts after the local allocation pass\<close>

lemma local_alloc_ready_below_temporaries:
  assumes "local_alloc_ready c" and "j < n_insns c" and "chain_fires c j"
  shows "src_args (insns c ! j) 0 < ORC_VAR_T1 \<and> dest_args (insns c ! j) 0 < ORC_VAR_T1"
  using assms unfolding local_alloc_ready_def
  by (auto simp: ORC_N_VARIABLES_def ORC_VAR_T1_def)




end
